theory Spec2Isabelle
  imports Main
begin

section \<open>JavaScript values\<close>

text \<open>
  The primitive values. The code looks at a number in two ways only, through its
  truthiness and through \<^verbatim>\<open>String\<close>, so a number is given by these two: whether it is truthy
  (it is neither \<^verbatim>\<open>0\<close>, \<^verbatim>\<open>-0\<close> nor \<^verbatim>\<open>NaN\<close>) and what \<^verbatim>\<open>String\<close> prints for it (\<^verbatim>\<open>'0'\<close>, \<^verbatim>\<open>'1.5'\<close>,
  \<^verbatim>\<open>'1e+21'\<close>). A string is the sequence of bytes that encodes it (UTF-8, an unpaired
  surrogate being encoded like any other code point), so that equal strings are equal
  sequences.
\<close>

datatype primitive = JUndefined | JNull | JBool bool | JNum bool string | JStr string

text \<open>JavaScript truthiness, as used by \<^verbatim>\<open>!x\<close>, \<^verbatim>\<open>x && y\<close> and \<^verbatim>\<open>if (x)\<close>.\<close>

fun truthy :: "primitive \<Rightarrow> bool" where
  "truthy JUndefined = False"
| "truthy JNull = False"
| "truthy (JBool b) = b"
| "truthy (JNum t s) = t"
| "truthy (JStr s) = (s \<noteq> [])"

text \<open>\<^verbatim>\<open>String(v)\<close> on a primitive value.\<close>

fun js_String :: "primitive \<Rightarrow> string" where
  "js_String JUndefined = ''undefined''"
| "js_String JNull = ''null''"
| "js_String (JBool b) = (if b then ''true'' else ''false'')"
| "js_String (JNum t s) = s"
| "js_String (JStr s) = s"

text \<open>Decimal rendering of a natural number, as JavaScript prints a counter.\<close>

definition digit :: "nat \<Rightarrow> char" where
  "digit d = ''0123456789'' ! d"

function decimal :: "nat \<Rightarrow> string" where
  "decimal n = (if n < 10 then [digit n] else decimal (n div 10) @ [digit (n mod 10)])"
  by pat_completeness auto
termination
  by (relation "measure (\<lambda>n. n)") auto

declare decimal.simps [simp del]

text \<open>The errors that the code raises, and those of its collaborators.\<close>

datatype error =
    External string \<comment> \<open>an error raised by a collaborator, by its message\<close>
  | CannotConvertObjectToPrimitive \<comment> \<open>the \<^verbatim>\<open>TypeError\<close> of \<^verbatim>\<open>String(obj)\<close>\<close>
  | CannotConvertUndefinedToObject \<comment> \<open>the \<^verbatim>\<open>TypeError\<close> of \<^verbatim>\<open>Object.keys(undefined)\<close>\<close>
  | InvalidConnectionStringOrPool \<comment> \<open>\<^verbatim>\<open>'Invalid connection string / Pool '\<close>\<close>
  | SecondArgumentInvalid
  | FirstArgumentUndefined
  | CannotCombineHandleErrors
  | AlreadyReleased
  | ReleaseWatchFnSet \<comment> \<open>\<^verbatim>\<open>'releaseWatchFn should not have been set at this point.'\<close>\<close>
  | ConsistencyError
  | FailedToInitialize error \<comment> \<open>the \<^verbatim>\<open>GraphQLError\<close> with status 503 wrapping a cause\<close>
  | NoRequest
  | ReqCouldNotBeExtracted
  | InvalidWebsocketsArgument

text \<open>
  The values of properties (connection parameters, headers, the name of a constructor):
  primitives, and objects and arrays. An object or array is given by the outcome of
  \<^verbatim>\<open>String\<close> on it, which is a string or the error thrown (\<^verbatim>\<open>String({"toString": 1})\<close> throws
  a \<^verbatim>\<open>TypeError\<close>), and by its own enumerable properties in the order of \<^verbatim>\<open>Object.keys\<close>.
\<close>

datatype jsval = JPrim primitive | JObject "error + string" "(string \<times> jsval) list"

fun truthy_val :: "jsval \<Rightarrow> bool" where
  "truthy_val (JPrim p) = truthy p"
| "truthy_val (JObject str ps) = True"

fun String_val :: "jsval \<Rightarrow> error + string" where
  "String_val (JPrim p) = Inr (js_String p)"
| "String_val (JObject str ps) = str"

section \<open>Connection Pool Adapter (postgraphile.ts)\<close>

text \<open>
  What the adapter can observe of an object (or function) handed in as \<^verbatim>\<open>poolOrConfig\<close>:
  each field is the outcome of one test the source makes on it. \<open>ident\<close> is the object's
  identity.
\<close>

record jsobject =
  ident :: nat
  isCallable :: bool \<comment> \<open>\<^verbatim>\<open>typeof obj === 'function'\<close> (otherwise \<^verbatim>\<open>'object'\<close>)\<close>
  instanceofPool :: bool \<comment> \<open>\<^verbatim>\<open>obj instanceof Pool\<close>\<close>
  constructorIsFunction :: bool \<comment> \<open>\<^verbatim>\<open>typeof obj.constructor === 'function'\<close>\<close>
  constructorIsPoolSuper :: bool \<comment> \<open>\<^verbatim>\<open>obj.constructor === Pool.super_\<close>\<close>
  constructor_name :: jsval \<comment> \<open>\<^verbatim>\<open>obj.constructor.name\<close>\<close>
  hasClient :: bool \<comment> \<open>\<^verbatim>\<open>obj['Client']\<close> is truthy\<close>
  hasOptions :: bool \<comment> \<open>\<^verbatim>\<open>obj['options']\<close> is truthy\<close>
  connectIsFunction :: bool \<comment> \<open>\<^verbatim>\<open>typeof obj['connect'] === 'function'\<close>\<close>
  endIsFunction :: bool \<comment> \<open>\<^verbatim>\<open>typeof obj['end'] === 'function'\<close>\<close>
  queryIsFunction :: bool \<comment> \<open>\<^verbatim>\<open>typeof obj['query'] === 'function'\<close>\<close>
  string_form :: "error + string"
    \<comment> \<open>\<^verbatim>\<open>String(obj)\<close>: a string, or the error thrown, as on \<^verbatim>\<open>Object.create(null)\<close>\<close>
  protoIsNullOrObjectPrototype :: bool
    \<comment> \<open>\<^verbatim>\<open>Object.getPrototypeOf(obj)\<close> is \<^verbatim>\<open>null\<close> or \<^verbatim>\<open>Object.prototype\<close>\<close>

datatype mixed = Prim primitive | Obj jsobject

text \<open>Truthiness of any value: every object and function is truthy.\<close>

fun truthy_mixed :: "mixed \<Rightarrow> bool" where
  "truthy_mixed (Prim v) = truthy v"
| "truthy_mixed (Obj ob) = True"

text \<open>\<^verbatim>\<open>typeof v === 'object'\<close>: true of \<^verbatim>\<open>null\<close> and of objects that are not callable.\<close>

fun typeof_object :: "mixed \<Rightarrow> bool" where
  "typeof_object (Prim v) = (v = JNull)"
| "typeof_object (Obj ob) = (\<not> isCallable ob)"

fun typeof_string :: "mixed \<Rightarrow> bool" where
  "typeof_string (Prim (JStr s)) = True"
| "typeof_string v = False"

text \<open>
  \<^verbatim>\<open>isPlainObject\<close>: falsy values and values whose \<^verbatim>\<open>typeof\<close> is not \<^verbatim>\<open>'object'\<close> are rejected
  first; then \<^verbatim>\<open>String(obj)\<close> is computed, which can throw, and values that do not print as
  \<^verbatim>\<open>[object Object]\<close> are rejected; then the prototype decides.
\<close>

fun isPlainObject :: "mixed \<Rightarrow> error + bool" where
  "isPlainObject (Prim v) = Inr False"
| "isPlainObject (Obj ob) =
     (if isCallable ob then Inr False
      else case string_form ob of
             Inl e \<Rightarrow> Inl e
           | Inr s \<Rightarrow>
               if s \<noteq> ''[object Object]'' then Inr False
               else if protoIsNullOrObjectPrototype ob then Inr True
               else Inr False)"

text \<open>
  \<^verbatim>\<open>hasPoolConstructor\<close>. The constructor of a primitive is \<^verbatim>\<open>Number\<close>, \<^verbatim>\<open>String\<close> or
  \<^verbatim>\<open>Boolean\<close>, none of which is the parent class of \<^verbatim>\<open>Pool\<close>; \<^verbatim>\<open>undefined\<close> and \<^verbatim>\<open>null\<close>
  are falsy.
\<close>

fun hasPoolConstructor :: "mixed \<Rightarrow> bool" where
  "hasPoolConstructor (Prim v) = False"
| "hasPoolConstructor (Obj ob) = (constructorIsFunction ob \<and> constructorIsPoolSuper ob)"

text \<open>
  \<^verbatim>\<open>constructorName\<close>; \<open>None\<close> is \<^verbatim>\<open>null\<close>. A falsy value has none; a truthy primitive has
  the name of its wrapper class; on an object \<^verbatim>\<open>String(obj.constructor.name)\<close> can throw.
\<close>

fun constructorName :: "mixed \<Rightarrow> error + string option" where
  "constructorName (Prim JUndefined) = Inr None"
| "constructorName (Prim JNull) = Inr None"
| "constructorName (Prim (JBool b)) = Inr (if b then Some ''Boolean'' else None)"
| "constructorName (Prim (JNum t s)) = Inr (if t then Some ''Number'' else None)"
| "constructorName (Prim (JStr s)) = Inr (if s \<noteq> [] then Some ''String'' else None)"
| "constructorName (Obj ob) =
     (if constructorIsFunction ob \<and> truthy_val (constructor_name ob)
      then (case String_val (constructor_name ob) of
              Inl e \<Rightarrow> Inl e
            | Inr s \<Rightarrow> Inr (if s \<noteq> [] then Some s else None))
      else Inr None)"

fun quacksLikePgPool :: "mixed \<Rightarrow> error + bool" where
  "quacksLikePgPool (Prim v) = Inr False"
| "quacksLikePgPool (Obj ob) =
     (if instanceofPool ob then Inr True
      else if hasPoolConstructor (Obj ob) then Inr True
      else if \<not> typeof_object (Obj ob) then Inr False
      else case constructorName (Obj ob) of
             Inl e \<Rightarrow> Inl e
           | Inr name \<Rightarrow>
               if name \<noteq> Some ''Pool'' \<and> name \<noteq> Some ''BoundPool'' then Inr False
               else if \<not> hasClient ob then Inr False
               else if \<not> hasOptions ob then Inr False
               else if \<not> connectIsFunction ob then Inr False
               else if \<not> endIsFunction ob then Inr False
               else if \<not> queryIsFunction ob then Inr False
               else Inr True)"

text \<open>
  A pool is either the handle the caller supplied or one made by \<^verbatim>\<open>new Pool(config)\<close>
  from one of the three configurations the adapter builds.
\<close>

datatype pool_config =
    ConnectionString string \<comment> \<open>\<^verbatim>\<open>{ connectionString: poolOrConfig }\<close>\<close>
  | EmptyConfig \<comment> \<open>\<^verbatim>\<open>{}\<close>\<close>
  | ConfigObject jsobject \<comment> \<open>the caller's plain object, passed through\<close>

datatype pgPool = Supplied jsobject | Created pool_config

text \<open>The release callback \<^verbatim>\<open>() => pgPool.end()\<close>, by the pool it closes over.\<close>

datatype release_fn = EndPool pgPool

fun toPgPool :: "mixed \<Rightarrow> error + (pgPool \<times> release_fn option)" where
  "toPgPool (Obj ob) =
     (case quacksLikePgPool (Obj ob) of
        Inl e \<Rightarrow> Inl e
      | Inr True \<Rightarrow> Inr (Supplied ob, None)
      | Inr False \<Rightarrow>
          (case isPlainObject (Obj ob) of
             Inl e \<Rightarrow> Inl e
           | Inr True \<Rightarrow>
               Inr (Created (ConfigObject ob), Some (EndPool (Created (ConfigObject ob))))
           | Inr False \<Rightarrow> Inl InvalidConnectionStringOrPool))"
| "toPgPool (Prim (JStr s)) =
     Inr (Created (ConnectionString s), Some (EndPool (Created (ConnectionString s))))"
| "toPgPool (Prim v) =
     (if \<not> truthy v then Inr (Created EmptyConfig, Some (EndPool (Created EmptyConfig)))
      else Inl InvalidConnectionStringOrPool)"

section \<open>Schema Build Orchestrator (postgraphile.ts)\<close>

text \<open>
  The retry hook \<^verbatim>\<open>options.retryOnInitFail\<close>: unset (falsy), a truthy value that is not a
  function, or a function of the error and the attempt number. A call of the function
  either rejects, or resolves to a value (of which only the truthiness is used) after a
  time that \<^verbatim>\<open>process.hrtime\<close> reports as seconds and nanoseconds.
\<close>

datatype hook_result = HookThrows error | HookResolves bool nat nat

datatype retry_policy = RetryUnset | RetryTruthy | RetryFn "error \<Rightarrow> nat \<Rightarrow> hook_result"

record options =
  watchPg :: bool
  retryOnInitFail :: retry_policy
  live :: bool
  subscriptions :: "bool option" \<comment> \<open>\<open>None\<close> is \<^verbatim>\<open>null\<close> or \<^verbatim>\<open>undefined\<close>\<close>
  handleErrors :: bool
  extendedErrors :: bool
  showErrorStack :: bool

text \<open>The options object \<^verbatim>\<open>{}\<close>.\<close>

definition empty_options :: options where
  "empty_options = \<lparr>watchPg = False, retryOnInitFail = RetryUnset, live = False,
     subscriptions = None, handleErrors = False, extendedErrors = False,
     showErrorStack = False\<rparr>"

text \<open>
  What \<^verbatim>\<open>watchPostGraphileSchema\<close> does in one call: the snapshots it hands to the callback,
  in order, and then whether its promise rejects (\<open>None\<close>: it resolves to the release
  function).
\<close>

record 's watch_result =
  delivered :: "'s list"
  rejected :: "error option"

text \<open>
  The collaborators of the builder, from \<^verbatim>\<open>postgraphile-core\<close>. Each is given by the
  outcome of the call made when that many attempts have failed before.
\<close>

record 's builder_env =
  env_options :: options
  releasePgPool :: "release_fn option"
  createPostGraphileSchema :: "nat \<Rightarrow> error + 's"
  watchPostGraphileSchema :: "nat \<Rightarrow> 's watch_result"

text \<open>The effects of the builder that can be observed from outside, in order.\<close>

datatype 's event =
    Sleep nat
  | RetryHookCalled error nat
  | FallbackWarning nat nat
  | SeriousErrorLogged error nat bool
  | SuccessLogged string
  | SchemasChanged
  | ExportSchema 's
  | WatchReleased
  | PoolEnded
  | ProcessExit nat

text \<open>
  The mutable variables of one builder: the closure variables \<^verbatim>\<open>releaseWatchFn\<close> (set or
  \<^verbatim>\<open>null\<close>), \<^verbatim>\<open>released\<close> and \<^verbatim>\<open>gqlSchema\<close>, the counter \<^verbatim>\<open>attempts\<close> of the one call of
  \<^verbatim>\<open>createGqlSchema\<close> the builder makes, whether the pool has been ended, and the
  effects so far.
\<close>

record 's world =
  releaseWatchFn :: bool
  released :: bool
  gqlSchema :: "'s option"
  attempts :: nat
  poolEnded :: bool
  trace :: "'s event list"

definition initial_world :: "'s world" where
  "initial_world = \<lparr>releaseWatchFn = False, released = False, gqlSchema = None,
     attempts = 0, poolEnded = False, trace = []\<rparr>"

definition emit :: "'s event \<Rightarrow> 's world \<Rightarrow> 's world" where
  "emit ev w = w\<lparr>trace := trace w @ [ev]\<rparr>"

definition sleep :: "nat \<Rightarrow> 's world \<Rightarrow> 's world" where
  "sleep ms w = emit (Sleep ms) w"

text \<open>
  \<^verbatim>\<open>Pool.end()\<close> of the \<^verbatim>\<open>pg\<close> library: it marks the pool as ended, and rejects when the
  pool has been ended before.
\<close>

definition Pool_end :: "'s world \<Rightarrow> error option \<times> 's world" where
  "Pool_end w =
     (if poolEnded w then (Some (External ''Called end on pool more than once''), w)
      else (None, emit PoolEnded (w\<lparr>poolEnded := True\<rparr>)))"

definition releaseWatch :: "'s world \<Rightarrow> 's world" where
  "releaseWatch w =
     (if releaseWatchFn w then (emit WatchReleased w)\<lparr>releaseWatchFn := False\<rparr> else w)"

definition releaseOnce :: "release_fn option \<Rightarrow> 's world \<Rightarrow> error option \<times> 's world" where
  "releaseOnce rel w =
     (if released w then (Some AlreadyReleased, w)
      else let w1 = releaseWatch (w\<lparr>released := True\<rparr>)
           in case rel of None \<Rightarrow> (None, w1) | Some f \<Rightarrow> Pool_end w1)"

text \<open>
  \<^verbatim>\<open>release\<close> of the handler that \<^verbatim>\<open>postgraphile\<close> returns. \<^verbatim>\<open>releaseWatch\<close> is a function
  and so always truthy.
\<close>

definition release :: "release_fn option \<Rightarrow> 's world \<Rightarrow> error option \<times> 's world" where
  "release rel w =
     (let w1 = releaseWatch w
      in case rel of None \<Rightarrow> (None, w1) | Some f \<Rightarrow> Pool_end w1)"

definition exportGqlSchema :: "'s \<Rightarrow> 's world \<Rightarrow> 's world" where
  "exportGqlSchema s w = emit (ExportSchema s) w"

text \<open>The callback handed to \<^verbatim>\<open>watchPostGraphileSchema\<close>.\<close>

definition newSchema_callback :: "'s world \<Rightarrow> 's \<Rightarrow> 's world" where
  "newSchema_callback w s = exportGqlSchema s (emit SchemasChanged (w\<lparr>gqlSchema := Some s\<rparr>))"

definition backoff :: "nat \<Rightarrow> nat" where
  "backoff k = min (100 * k ^ 2) 30000"

text \<open>The \<^verbatim>\<open>try\<close> block of one iteration, up to the value or the error it ends with.\<close>

definition build_attempt :: "'s builder_env \<Rightarrow> 's world \<Rightarrow> 's world \<times> (error + 's)" where
  "build_attempt env w =
     (if watchPg (env_options env) then
        (if releaseWatchFn w then (w, Inl ReleaseWatchFnSet)
         else let r = watchPostGraphileSchema env (attempts w);
                  w1 = foldl newSchema_callback w (delivered r)
              in case rejected r of
                   Some e \<Rightarrow> (w1, Inl e)
                 | None \<Rightarrow>
                     (let w2 = w1\<lparr>releaseWatchFn := True\<rparr>
                      in case gqlSchema w2 of
                           None \<Rightarrow> (w2, Inl ConsistencyError)
                         | Some s \<Rightarrow> (w2, Inr s)))
      else case createPostGraphileSchema env (attempts w) of
             Inl e \<Rightarrow> (w, Inl e)
           | Inr s \<Rightarrow> (exportGqlSchema s (w\<lparr>gqlSchema := Some s\<rparr>), Inr s))"

text \<open>How the promise of \<^verbatim>\<open>createGqlSchema\<close> settles, or that the process exits.\<close>

datatype 's settled = Resolved 's | Rejected error | Exited nat

text \<open>
  The \<^verbatim>\<open>catch\<close> block, after \<^verbatim>\<open>attempts++\<close>. \<open>None\<close> means that the loop goes round again.
  The duration test \<^verbatim>\<open>dur < 50\<close> (milliseconds) is made on the nanoseconds.
\<close>

definition on_failure ::
  "'s builder_env \<Rightarrow> error \<Rightarrow> 's world \<Rightarrow> 's world \<times> 's settled option" where
  "on_failure env err w0 =
     (let w = w0\<lparr>attempts := attempts w0 + 1\<rparr>;
          delay = backoff (attempts w)
      in case retryOnInitFail (env_options env) of
           RetryFn f \<Rightarrow>
             (let w1 = emit (RetryHookCalled err (attempts w)) w
              in case f err (attempts w) of
                   HookThrows e \<Rightarrow> (w1, Some (Rejected (FailedToInitialize e)))
                 | HookResolves retry sec nsec \<Rightarrow>
                     if \<not> retry then
                       (case releaseOnce (releasePgPool env) w1 of
                          (Some e, w2) \<Rightarrow> (w2, Some (Rejected (FailedToInitialize e)))
                        | (None, w2) \<Rightarrow> (w2, Some (Rejected (FailedToInitialize err))))
                     else if sec * 1000000000 + nsec < 50000000
                       then (sleep delay (emit (FallbackWarning delay (attempts w)) w1), None)
                     else (w1, None))
         | RetryTruthy \<Rightarrow>
             (sleep delay (emit (SeriousErrorLogged err (attempts w) False) w), None)
         | RetryUnset \<Rightarrow>
             (emit (ProcessExit 34) (emit (SeriousErrorLogged err (attempts w) True) w),
              Some (Exited 34)))"

text \<open>One turn of the \<^verbatim>\<open>while (true)\<close> loop.\<close>

definition iteration :: "'s builder_env \<Rightarrow> 's world \<Rightarrow> 's world \<times> 's settled option" where
  "iteration env w =
     (case build_attempt env w of
        (w1, Inr s) \<Rightarrow>
          (if attempts w1 > 0
           then (emit (SuccessLogged (if attempts w1 > 15 then ''eventually''
                   else if attempts w1 > 5 then ''finally'' else ''now'')) w1,
                 Some (Resolved s))
           else (w1, Some (Resolved s)))
      | (w1, Inl e) \<Rightarrow> on_failure env e w1)"

text \<open>
  The loop, with fuel: \<open>None\<close> when the promise has not settled within that many turns.
\<close>

fun createGqlSchema ::
  "nat \<Rightarrow> 's builder_env \<Rightarrow> 's world \<Rightarrow> ('s world \<times> 's settled) option" where
  "createGqlSchema 0 env w = None"
| "createGqlSchema (Suc n) env w =
     (case iteration env w of
        (w', Some r) \<Rightarrow> Some (w', r)
      | (w', None) \<Rightarrow> createGqlSchema n env w')"

text \<open>
  \<^verbatim>\<open>getGraphQLSchema\<close> returns either the one promise \<^verbatim>\<open>gqlSchemaPromise\<close> of the builder or
  a promise already resolved to the current snapshot. It changes nothing.
\<close>

datatype 's promise_ref = GqlSchemaPromise | Promise_resolve 's

definition getGraphQLSchema :: "'s world \<Rightarrow> 's promise_ref" where
  "getGraphQLSchema w =
     (case gqlSchema w of Some s \<Rightarrow> Promise_resolve s | None \<Rightarrow> GqlSchemaPromise)"

text \<open>
  \<^verbatim>\<open>getPostgraphileSchemaBuilder\<close>, up to the start of \<^verbatim>\<open>createGqlSchema\<close>. The module
  \<^verbatim>\<open>pluginHook\<close> is a parameter: \<open>pluginHookFromOptions opts\<close> is what the
  \<^verbatim>\<open>'postgraphile:options'\<close> hook of the plugins configured by \<open>opts\<close> makes of the options
  handed to it.
\<close>

record builder =
  builder_options :: options
  pgSchemas :: "string list"

definition getPostgraphileSchemaBuilder ::
  "(options \<Rightarrow> options \<Rightarrow> options) \<Rightarrow> string list \<Rightarrow> options \<Rightarrow> error + builder" where
  "getPostgraphileSchemaBuilder pluginHookFromOptions schemas incomingOptions0 =
     (let incomingOptions =
            (if live incomingOptions0 \<and> subscriptions incomingOptions0 = None
             then incomingOptions0\<lparr>subscriptions := Some True\<rparr> else incomingOptions0);
          opts = pluginHookFromOptions incomingOptions incomingOptions
      in if handleErrors opts \<and> (extendedErrors opts \<or> showErrorStack opts)
         then Inl CannotCombineHandleErrors
         else Inr \<lparr>builder_options = opts, pgSchemas = schemas\<rparr>)"

text \<open>
  A call of \<^verbatim>\<open>postgraphile\<close>, by the number of arguments passed. The second argument is a
  string, an array, \<^verbatim>\<open>null\<close>, an options object, \<^verbatim>\<open>undefined\<close>, or anything else (a number,
  a boolean, a function); the third is an options object or falsy (\<open>None\<close>).
\<close>

datatype second_argument =
    SchemaString string
  | SchemaArray "string list"
  | OptionsNull
  | OptionsObject options
  | SecondUndefined
  | SecondOther

datatype call =
    Call0
  | Call1 mixed
  | Call2 mixed second_argument
  | Call3 mixed second_argument "options option"

fun arguments_length :: "call \<Rightarrow> nat" where
  "arguments_length Call0 = 0"
| "arguments_length (Call1 p) = 1"
| "arguments_length (Call2 p s) = 2"
| "arguments_length (Call3 p s m) = 3"

fun poolOrConfig :: "call \<Rightarrow> mixed" where
  "poolOrConfig Call0 = Prim JUndefined"
| "poolOrConfig (Call1 p) = p"
| "poolOrConfig (Call2 p s) = p"
| "poolOrConfig (Call3 p s m) = p"

fun schemaOrOptions :: "call \<Rightarrow> second_argument" where
  "schemaOrOptions (Call2 p s) = s"
| "schemaOrOptions (Call3 p s m) = s"
| "schemaOrOptions c = SecondUndefined"

fun maybeOptions :: "call \<Rightarrow> options option" where
  "maybeOptions (Call3 p s m) = m"
| "maybeOptions c = None"

record handler =
  handler_pgPool :: pgPool
  handler_releasePgPool :: "release_fn option"
  handler_options :: options
  handler_pgSchemas :: "string list"
  ownerConnectionString :: "string option"

text \<open>\<^verbatim>\<open>maybeOptions || {}\<close>.\<close>

definition or_empty :: "options option \<Rightarrow> options" where
  "or_empty m = (case m of Some opts \<Rightarrow> opts | None \<Rightarrow> empty_options)"

text \<open>The first part of \<^verbatim>\<open>postgraphile\<close>: the schema names and the incoming options.\<close>

definition schema_and_options :: "call \<Rightarrow> error + (string list \<times> options)" where
  "schema_and_options c =
     (case schemaOrOptions c of
        SchemaString s \<Rightarrow> Inr ([s], or_empty (maybeOptions c))
      | SchemaArray ss \<Rightarrow> Inr (ss, or_empty (maybeOptions c))
      | OptionsNull \<Rightarrow> Inr ([''public''], or_empty (maybeOptions c))
      | OptionsObject opts \<Rightarrow> Inr ([''public''], opts)
      | _ \<Rightarrow> if arguments_length c > 1 then Inl SecondArgumentInvalid
             else Inr ([''public''], empty_options))"

definition postgraphile ::
  "(options \<Rightarrow> options \<Rightarrow> options) \<Rightarrow> call \<Rightarrow> error + handler" where
  "postgraphile pluginHookFromOptions c =
     (case schema_and_options c of
        Inl e \<Rightarrow> Inl e
      | Inr (schemas, incomingOptions) \<Rightarrow>
          if poolOrConfig c = Prim JUndefined \<and> arguments_length c \<ge> 1
          then Inl FirstArgumentUndefined
          else (case toPgPool (poolOrConfig c) of
                  Inl e \<Rightarrow> Inl e
                | Inr (pool, rel) \<Rightarrow>
                    (case getPostgraphileSchemaBuilder pluginHookFromOptions schemas
                             incomingOptions of
                       Inl e \<Rightarrow> Inl e
                     | Inr b \<Rightarrow>
                         Inr \<lparr>handler_pgPool = pool, handler_releasePgPool = rel,
                              handler_options = builder_options b,
                              handler_pgSchemas = pgSchemas b,
                              ownerConnectionString =
                                (case poolOrConfig c of
                                   Prim (JStr s) \<Rightarrow> Some s | _ \<Rightarrow> None)\<rparr>)))"

subsection \<open>Reading a run\<close>

text \<open>The waits and the calls of the retry hook in a trace, in order.\<close>

fun sleeps :: "'s event list \<Rightarrow> nat list" where
  "sleeps [] = []"
| "sleeps (Sleep ms # es) = ms # sleeps es"
| "sleeps (e # es) = sleeps es"

fun hook_calls :: "'s event list \<Rightarrow> (error \<times> nat) list" where
  "hook_calls [] = []"
| "hook_calls (RetryHookCalled e k # es) = (e, k) # hook_calls es"
| "hook_calls (e # es) = hook_calls es"

text \<open>
  The error with which the attempt made after \<open>k\<close> failures ends, if it fails: in watch mode
  the rejection of \<^verbatim>\<open>watchPostGraphileSchema\<close>, otherwise that of \<^verbatim>\<open>createPostGraphileSchema\<close>.
  The attempt succeeds when the collaborator resolves (in watch mode: after it has handed
  a snapshot to the callback).
\<close>

definition attempt_error :: "'s builder_env \<Rightarrow> nat \<Rightarrow> error option" where
  "attempt_error env k =
     (if watchPg (env_options env) then rejected (watchPostGraphileSchema env k)
      else case createPostGraphileSchema env k of Inl e \<Rightarrow> Some e | Inr s \<Rightarrow> None)"

definition attempt_succeeds :: "'s builder_env \<Rightarrow> nat \<Rightarrow> bool" where
  "attempt_succeeds env k =
     (if watchPg (env_options env)
      then rejected (watchPostGraphileSchema env k) = None
           \<and> delivered (watchPostGraphileSchema env k) \<noteq> []
      else case createPostGraphileSchema env k of Inl e \<Rightarrow> False | Inr s \<Rightarrow> True)"

definition fails_then_succeeds :: "'s builder_env \<Rightarrow> nat \<Rightarrow> bool" where
  "fails_then_succeeds env N =
     (list_all (\<lambda>k. attempt_error env k \<noteq> None) [0..<N] \<and> attempt_succeeds env N)"

text \<open>What the hook answered, and whether it answered in under 50 milliseconds.\<close>

fun hook_retry :: "hook_result \<Rightarrow> bool" where
  "hook_retry (HookResolves retry sec nsec) = retry"
| "hook_retry (HookThrows e) = False"

fun hook_quick :: "hook_result \<Rightarrow> bool" where
  "hook_quick (HookResolves retry sec nsec) = (sec * 1000000000 + nsec < 50000000)"
| "hook_quick (HookThrows e) = False"

text \<open>
  What a run of \<^verbatim>\<open>createGqlSchema\<close> from a fresh builder shows: the waits, the calls of the
  hook, and how the promise settled.
\<close>

definition run_summary ::
  "nat \<Rightarrow> 's builder_env \<Rightarrow> (nat list \<times> (error \<times> nat) list \<times> 's settled) option" where
  "run_summary fuel env =
     (case createGqlSchema fuel env initial_world of
        None \<Rightarrow> None
      | Some (w, r) \<Rightarrow> Some (sleeps (trace w), hook_calls (trace w), r))"

text \<open>
  Whether the retry policy lets the loop go on after a failure with error \<open>e\<close> that brought
  the counter to \<open>k\<close>, and the default waits and hook calls of that turn.
\<close>

definition retry_approved :: "retry_policy \<Rightarrow> error \<Rightarrow> nat \<Rightarrow> bool" where
  "retry_approved pol e k =
     (case pol of RetryUnset \<Rightarrow> False | RetryTruthy \<Rightarrow> True | RetryFn f \<Rightarrow> hook_retry (f e k))"

definition default_waits :: "retry_policy \<Rightarrow> error \<Rightarrow> nat \<Rightarrow> nat list" where
  "default_waits pol e k =
     (case pol of
        RetryUnset \<Rightarrow> []
      | RetryTruthy \<Rightarrow> [backoff k]
      | RetryFn f \<Rightarrow> if hook_quick (f e k) then [backoff k] else [])"

definition hook_invocations :: "retry_policy \<Rightarrow> error \<Rightarrow> nat \<Rightarrow> (error \<times> nat) list" where
  "hook_invocations pol e k = (case pol of RetryFn f \<Rightarrow> [(e, k)] | _ \<Rightarrow> [])"

text \<open>
  The same over \<open>n\<close> failing attempts in a row, the first made after \<open>a\<close> failures:
  that each of them fails and is retried, and the waits and hook calls they cause.
\<close>

fun all_approved :: "'s builder_env \<Rightarrow> nat \<Rightarrow> nat \<Rightarrow> bool" where
  "all_approved env a 0 = True"
| "all_approved env a (Suc n) =
     ((case attempt_error env a of
         None \<Rightarrow> False
       | Some e \<Rightarrow> retry_approved (retryOnInitFail (env_options env)) e (Suc a))
      \<and> all_approved env (Suc a) n)"

fun expected_waits :: "'s builder_env \<Rightarrow> nat \<Rightarrow> nat \<Rightarrow> nat list" where
  "expected_waits env a 0 = []"
| "expected_waits env a (Suc n) =
     (case attempt_error env a of
        None \<Rightarrow> []
      | Some e \<Rightarrow> default_waits (retryOnInitFail (env_options env)) e (Suc a))
     @ expected_waits env (Suc a) n"

fun expected_hook_calls :: "'s builder_env \<Rightarrow> nat \<Rightarrow> nat \<Rightarrow> (error \<times> nat) list" where
  "expected_hook_calls env a 0 = []"
| "expected_hook_calls env a (Suc n) =
     (case attempt_error env a of
        None \<Rightarrow> []
      | Some e \<Rightarrow> hook_invocations (retryOnInitFail (env_options env)) e (Suc a))
     @ expected_hook_calls env (Suc a) n"

text \<open>
  The state after \<open>k\<close> turns of the loop, none of which settled the promise (\<open>None\<close> if one
  of them did): the states in which the build is in flight.
\<close>

fun turns :: "nat \<Rightarrow> 's builder_env \<Rightarrow> 's world \<Rightarrow> 's world option" where
  "turns 0 env w = Some w"
| "turns (Suc k) env w =
     (case iteration env w of (w', None) \<Rightarrow> turns k env w' | (w', Some r) \<Rightarrow> None)"

section \<open>WebSocket Subscription Bridge (subscriptions.ts)\<close>

subsection \<open>Connection parameters and headers\<close>

text \<open>
  \<^verbatim>\<open>String.prototype.toLowerCase\<close> is a parameter \<open>lower\<close> of what follows. On strings of
  ASCII characters it is this function:
\<close>

definition lowerChar :: "char \<Rightarrow> char" where
  "lowerChar c =
     (case map_of (zip ''ABCDEFGHIJKLMNOPQRSTUVWXYZ'' ''abcdefghijklmnopqrstuvwxyz'') c of
        Some l \<Rightarrow> l
      | None \<Rightarrow> c)"

definition toLowerCase_ascii :: "string \<Rightarrow> string" where
  "toLowerCase_ascii s = map lowerChar s"

text \<open>
  An object is the list of its own enumerable properties in the order of \<^verbatim>\<open>Object.keys\<close>
  when it is iterated, and a map from keys to values when its own properties are read or
  spread.

  The object \<^verbatim>\<open>memo\<close> that \<^verbatim>\<open>lowerCaseKeys\<close> builds has own properties and a prototype:
  \<^verbatim>\<open>Object.prototype\<close> at first, then possibly \<^verbatim>\<open>null\<close> or one of the parameter values (given
  by its own properties), since assigning to the key \<^verbatim>\<open>__proto__\<close> reaches the prototype
  setter of \<^verbatim>\<open>Object.prototype\<close> unless \<^verbatim>\<open>memo\<close> has an own property of that name, or has no
  prototype, or has a prototype with an own property of that name. The setter takes an
  object or \<^verbatim>\<open>null\<close> as the new prototype and ignores any other value.
\<close>

type_synonym props = "string \<rightharpoonup> jsval"

datatype prototype = ObjectPrototype | NullPrototype | ProtoObject "(string \<times> jsval) list"

record normalized =
  own :: props
  proto :: prototype

fun setter_reachable :: "prototype \<Rightarrow> bool" where
  "setter_reachable ObjectPrototype = True"
| "setter_reachable NullPrototype = False"
| "setter_reachable (ProtoObject ps) = (''__proto__'' \<notin> set (map fst ps))"

definition assign_lowered ::
  "(string \<Rightarrow> string) \<Rightarrow> normalized \<Rightarrow> string \<times> jsval \<Rightarrow> normalized" where
  "assign_lowered lower memo kv =
     (case kv of (key, v) \<Rightarrow>
        if lower key = ''__proto__'' \<and> own memo ''__proto__'' = None
           \<and> setter_reachable (proto memo)
        then (case v of
                JPrim JNull \<Rightarrow> memo\<lparr>proto := NullPrototype\<rparr>
              | JPrim p \<Rightarrow> memo
              | JObject str ps \<Rightarrow> memo\<lparr>proto := ProtoObject ps\<rparr>)
        else memo\<lparr>own := (own memo)(lower key \<mapsto> v)\<rparr>)"

definition lowerCaseKeys :: "(string \<Rightarrow> string) \<Rightarrow> (string \<times> jsval) list \<Rightarrow> normalized" where
  "lowerCaseKeys lower obj =
     foldl (assign_lowered lower) \<lparr>own = Map.empty, proto = ObjectPrototype\<rparr> obj"

text \<open>
  Reading an own property of an object whose prototype (like \<^verbatim>\<open>Object.prototype\<close>) has no
  property of that name: a missing one reads as \<^verbatim>\<open>undefined\<close>.
\<close>

definition get_prop :: "props \<Rightarrow> string \<Rightarrow> jsval" where
  "get_prop obj k = (case obj k of Some v \<Rightarrow> v | None \<Rightarrow> JPrim JUndefined)"

text \<open>
  Reading \<^verbatim>\<open>normalizedConnectionParams[k]\<close>, for a key \<open>k\<close> that the built-in prototypes do not
  have: an own property, or else one inherited from the prototype.
\<close>

definition read_normalized :: "normalized \<Rightarrow> string \<Rightarrow> jsval" where
  "read_normalized memo k =
     (case own memo k of
        Some v \<Rightarrow> v
      | None \<Rightarrow>
          (case proto memo of
             ProtoObject ps \<Rightarrow> (case map_of ps k of Some v \<Rightarrow> v | None \<Rightarrow> JPrim JUndefined)
           | _ \<Rightarrow> JPrim JUndefined))"

record request =
  headers :: props
  connectionParams :: "(string \<times> jsval) list"
  normalizedConnectionParams :: normalized

record socket =
  postgraphileId :: "nat option"
  postgraphileReq :: "request option"
  postgraphileHeaders :: "props option"

text \<open>
  The part of \<^verbatim>\<open>onConnect\<close> that the two protocol versions share. First the parameters are
  stored on the request. Then an \<^verbatim>\<open>authorization\<close> header is copied from the parameters
  when the request has none; \<^verbatim>\<open>String\<close> can throw here. Last the header map for the socket
  is made by spreading the own properties of the parameters and then the headers.
\<close>

definition connect_request ::
  "(string \<Rightarrow> string) \<Rightarrow> (string \<times> jsval) list \<Rightarrow> props \<Rightarrow> request" where
  "connect_request lower params hdrs =
     \<lparr>headers = hdrs, connectionParams = params,
      normalizedConnectionParams = lowerCaseKeys lower params\<rparr>"

definition copy_authorization :: "request \<Rightarrow> error + request" where
  "copy_authorization req =
     (if \<not> truthy_val (get_prop (headers req) ''authorization'')
         \<and> truthy_val (read_normalized (normalizedConnectionParams req) ''authorization'')
      then (case String_val (read_normalized (normalizedConnectionParams req) ''authorization'') of
              Inl e \<Rightarrow> Inl e
            | Inr s \<Rightarrow> Inr (req\<lparr>headers := (headers req)(''authorization'' \<mapsto> JPrim (JStr s))\<rparr>))
      else Inr req)"

definition effective_headers :: "request \<Rightarrow> props" where
  "effective_headers req = own (normalizedConnectionParams req) ++ headers req"

text \<open>
  \<^verbatim>\<open>onConnect\<close> of the legacy protocol (v0). The state is the counter \<^verbatim>\<open>socketId\<close> and the
  socket. The connection parameters are the payload of the connect message, \<open>None\<close> when
  it is \<^verbatim>\<open>undefined\<close> or \<^verbatim>\<open>null\<close> (\<^verbatim>\<open>Object.keys\<close> throws); the request, given by its headers,
  is \<open>None\<close> when the connection context has none.
\<close>

definition onConnect_v0 ::
  "(string \<Rightarrow> string) \<Rightarrow> (string \<times> jsval) list option \<Rightarrow> props option \<Rightarrow> nat \<times> socket
     \<Rightarrow> error option \<times> (nat \<times> socket)" where
  "onConnect_v0 lower params req st =
     (case st of (socketId, sock) \<Rightarrow>
        (let sock1 = sock\<lparr>postgraphileId := Some (socketId + 1)\<rparr>
         in (case req of
               None \<Rightarrow> (Some NoRequest, (socketId + 1, sock1))
             | Some hdrs \<Rightarrow>
                 (case params of
                    None \<Rightarrow> (Some CannotConvertUndefinedToObject, (socketId + 1, sock1))
                  | Some ps \<Rightarrow>
                      (case copy_authorization (connect_request lower ps hdrs) of
                         Inl e \<Rightarrow>
                           (Some e, (socketId + 1,
                              sock1\<lparr>postgraphileReq := Some (connect_request lower ps hdrs)\<rparr>))
                       | Inr request \<Rightarrow>
                           (None, (socketId + 1,
                              sock1\<lparr>postgraphileReq := Some request,
                                    postgraphileHeaders :=
                                      Some (effective_headers request)\<rparr>)))))))"

text \<open>
  \<^verbatim>\<open>onConnect\<close> of the current protocol (v1): the request is always there, and missing
  (falsy) connection parameters count as \<^verbatim>\<open>{}\<close>.
\<close>

definition onConnect_v1 ::
  "(string \<Rightarrow> string) \<Rightarrow> (string \<times> jsval) list option \<Rightarrow> props \<Rightarrow> nat \<times> socket
     \<Rightarrow> error option \<times> (nat \<times> socket)" where
  "onConnect_v1 lower params hdrs st =
     (case st of (socketId, sock) \<Rightarrow>
        (let ps = (case params of Some ps \<Rightarrow> ps | None \<Rightarrow> []);
             sock1 = sock\<lparr>postgraphileId := Some (socketId + 1),
                         postgraphileReq := Some (connect_request lower ps hdrs)\<rparr>
         in (case copy_authorization (connect_request lower ps hdrs) of
               Inl e \<Rightarrow> (Some e, (socketId + 1, sock1))
             | Inr request \<Rightarrow>
                 (None, (socketId + 1,
                    sock1\<lparr>postgraphileReq := Some request,
                          postgraphileHeaders := Some (effective_headers request)\<rparr>)))))"

subsection \<open>Deferred context slots\<close>

text \<open>
  A \<^verbatim>\<open>Deferred\<close> promise with its \<^verbatim>\<open>context\<close> property. The promises live in a heap, a list
  in which the address of a promise is its index; \<^verbatim>\<open>deferred()\<close> allocates at the end.
  \<^verbatim>\<open>keepalivePromisesByContextKey\<close> maps a key to an address or to \<^verbatim>\<open>null\<close> (\<open>Some None\<close>).
\<close>

record 'c deferred =
  resolved :: bool
  contextValue :: "'c option"

record 'c slots =
  heap :: "'c deferred list"
  keepalivePromisesByContextKey :: "string \<rightharpoonup> nat option"

definition contextKey :: "nat option \<Rightarrow> string \<Rightarrow> string" where
  "contextKey wsId opId =
     (case wsId of Some n \<Rightarrow> decimal n | None \<Rightarrow> ''undefined'') @ ''|'' @ opId"

text \<open>\<^verbatim>\<open>promise.resolve()\<close>: resolving a resolved promise changes nothing.\<close>

definition resolve :: "nat \<Rightarrow> 'c deferred list \<Rightarrow> 'c deferred list" where
  "resolve p h = (if p < length h then h[p := (h ! p)\<lparr>resolved := True\<rparr>] else h)"

definition releaseContextForSocketAndOpId :: "nat option \<Rightarrow> string \<Rightarrow> 'c slots \<Rightarrow> 'c slots" where
  "releaseContextForSocketAndOpId wsId opId st =
     (case keepalivePromisesByContextKey st (contextKey wsId opId) of
        Some (Some p) \<Rightarrow>
          st\<lparr>heap := resolve p (heap st),
             keepalivePromisesByContextKey :=
               (keepalivePromisesByContextKey st)(contextKey wsId opId \<mapsto> None)\<rparr>
      | _ \<Rightarrow> st)"

text \<open>Returns the address of the new promise and the new state.\<close>

definition addContextForSocketAndOpId ::
  "'c \<Rightarrow> nat option \<Rightarrow> string \<Rightarrow> 'c slots \<Rightarrow> nat \<times> 'c slots" where
  "addContextForSocketAndOpId c wsId opId st0 =
     (let st = releaseContextForSocketAndOpId wsId opId st0;
          promise = length (heap st)
      in (promise,
          st\<lparr>heap := heap st @ [\<lparr>resolved = False, contextValue = Some c\<rparr>],
             keepalivePromisesByContextKey :=
               (keepalivePromisesByContextKey st)(contextKey wsId opId \<mapsto> Some promise)\<rparr>))"

text \<open>A promise is live when it is in the heap and has not been resolved.\<close>

definition live_promise :: "'c slots \<Rightarrow> nat \<Rightarrow> bool" where
  "live_promise st p = (p < length (heap st) \<and> \<not> resolved (heap st ! p))"

text \<open>
  The slot table is consistent when every address in it is in the heap, and every live
  promise is the entry of exactly one key.
\<close>

definition slots_ok :: "'c slots \<Rightarrow> bool" where
  "slots_ok st =
     ((\<forall>k p. keepalivePromisesByContextKey st k = Some (Some p) \<longrightarrow> p < length (heap st))
      \<and> (\<forall>p. live_promise st p \<longrightarrow>
             (\<exists>k. keepalivePromisesByContextKey st k = Some (Some p)))
      \<and> (\<forall>k k' p. keepalivePromisesByContextKey st k = Some (Some p)
             \<and> keepalivePromisesByContextKey st k' = Some (Some p) \<longrightarrow> k = k'))"

definition empty_slots :: "'c slots" where
  "empty_slots = \<lparr>heap = [], keepalivePromisesByContextKey = Map.empty\<rparr>"

subsection \<open>Enabling subscriptions on a server\<close>

datatype websockets = V0 | V1

text \<open>
  \<^verbatim>\<open>subscriptionServerOptions\<close>; \<open>websockets\<close> is \<open>None\<close> for \<^verbatim>\<open>undefined\<close> and for any value
  other than \<^verbatim>\<open>'v0'\<close> and \<^verbatim>\<open>'v1'\<close>. A route is \<open>None\<close> when it is missing or the empty string
  (both falsy).
\<close>

record subscriptionServerOptions =
  sso_graphqlRoute :: "string option"
  sso_websockets :: "websockets option"
  operations_all :: bool

record route_options =
  externalUrlBase :: "string option"
  graphqlRoute :: "string option"

text \<open>
  The http server, as far as the function touches it: the flag
  \<^verbatim>\<open>__postgraphileSubscriptionsEnabled\<close>, the routes of the \<^verbatim>\<open>'upgrade'\<close> listeners installed,
  and the subscription servers created.
\<close>

record server =
  postgraphileSubscriptionsEnabled :: bool
  upgradeListeners :: "string list"
  subscriptionServers :: "websockets list"

definition the_graphqlRoute :: "subscriptionServerOptions option \<Rightarrow> route_options \<Rightarrow> string" where
  "the_graphqlRoute sso opts =
     (case (case sso of Some x \<Rightarrow> sso_graphqlRoute x | None \<Rightarrow> None) of
        Some r \<Rightarrow> r
      | None \<Rightarrow>
          (case externalUrlBase opts of Some b \<Rightarrow> b | None \<Rightarrow> [])
          @ (case graphqlRoute opts of Some r \<Rightarrow> r | None \<Rightarrow> ''/graphql''))"

text \<open>
  \<^verbatim>\<open>enhanceHttpServerWithWebSockets\<close>. \<open>schema\<close> is how \<^verbatim>\<open>await getGraphQLSchema()\<close> ends.
\<close>

definition enhanceHttpServerWithWebSockets ::
  "route_options \<Rightarrow> error + 's \<Rightarrow> subscriptionServerOptions option \<Rightarrow> server
     \<Rightarrow> error option \<times> server" where
  "enhanceHttpServerWithWebSockets opts schema sso srv =
     (if postgraphileSubscriptionsEnabled srv then (None, srv)
      else let srv1 = srv\<lparr>postgraphileSubscriptionsEnabled := True\<rparr>
           in case schema of
                Inl e \<Rightarrow> (Some e, srv1)
              | Inr s \<Rightarrow>
                  (let srv2 = srv1\<lparr>upgradeListeners :=
                                     upgradeListeners srv1 @ [the_graphqlRoute sso opts]\<rparr>
                   in case (case sso of Some x \<Rightarrow> sso_websockets x | None \<Rightarrow> None) of
                        Some v \<Rightarrow>
                          (None, srv2\<lparr>subscriptionServers := subscriptionServers srv2 @ [v]\<rparr>)
                      | None \<Rightarrow> (Some InvalidWebsocketsArgument, srv2)))"

text \<open>
  Further calls on the same server, one after the other: what each returns, and the
  server in the end.
\<close>

fun enhance_again ::
  "(route_options \<times> (error + 's) \<times> subscriptionServerOptions option) list \<Rightarrow> server
     \<Rightarrow> error option list \<times> server" where
  "enhance_again [] srv = ([], srv)"
| "enhance_again ((opts, schema, sso) # cs) srv =
     (case enhanceHttpServerWithWebSockets opts schema sso srv of
        (r, srv1) \<Rightarrow> (case enhance_again cs srv1 of (rs, srv2) \<Rightarrow> (r # rs, srv2)))"

subsection \<open>Operations\<close>

text \<open>
  The execution parameters of a v0 operation (\<^verbatim>\<open>ExecutionParams\<close>), the payload of a v1
  subscribe message, and the execution arguments built from it (\<^verbatim>\<open>ExecutionArgs\<close>). A
  query is a string or a parsed document. Schemas, documents, validation rules, GraphQL
  errors, formatted errors, variables and contexts are left open.
\<close>

record ('s, 'd, 'v, 'c) execution_params =
  params_schema :: "'s option"
  params_query :: "string + 'd"
  params_variables :: 'v
  params_operationName :: "string option"
  params_context :: 'c
  params_formatResponse :: bool

record 'v payload =
  payload_query :: string
  payload_variables :: 'v
  payload_operationName :: "string option"

record ('s, 'd, 'v, 'c) execution_args =
  args_schema :: 's
  args_contextValue :: 'c
  args_operationName :: "string option"
  document :: 'd
  variableValues :: 'v

text \<open>
  What the handlers of one operation call: how \<^verbatim>\<open>getContext\<close>, \<^verbatim>\<open>getGraphQLSchema\<close> and
  \<^verbatim>\<open>reqResFromSocket\<close> end for this socket; \<^verbatim>\<open>Object.assign\<close> on contexts; the plugin hooks
  \<^verbatim>\<open>'postgraphile:ws:onOperation'\<close>, \<^verbatim>\<open>'postgraphile:ws:onSubscribe'\<close> and
  \<^verbatim>\<open>'postgraphile:validationRules'\<close> (the last as a function of the variables and the
  operation name it is given); the static rules; \<^verbatim>\<open>parse\<close>, \<^verbatim>\<open>validate\<close> and the message
  of an error, from \<^verbatim>\<open>graphql\<close>; and \<^verbatim>\<open>handleErrors\<close> of the middleware. Each call can throw.

  The hook \<^verbatim>\<open>'postgraphile:ws:onOperation'\<close> is handed the object \<^verbatim>\<open>params\<close> itself, which
  the handler reads again afterwards. So a call of the hook has two results: the state in
  which it leaves the object \<^verbatim>\<open>params\<close>, and the value it returns (\<^verbatim>\<open>hookedParams\<close>). For a
  hook that changes \<^verbatim>\<open>params\<close> in place and returns it, the two are equal; for a hook that
  returns a fresh object, the first is its argument. A hook that returns \<^verbatim>\<open>undefined\<close> or
  \<^verbatim>\<open>null\<close> makes the next statement throw, which is a call that throws.
\<close>

record ('s, 'd, 'r, 'g, 'f, 'v, 'c) bridge =
  getContext :: "error + 'c"
  current_schema :: "error + 's"
  reqResFromSocket :: "error option"
  assign_context :: "'c \<Rightarrow> 'c \<Rightarrow> 'c"
  hook_onOperation ::
    "('s, 'd, 'v, 'c) execution_params
       \<Rightarrow> error + (('s, 'd, 'v, 'c) execution_params \<times> ('s, 'd, 'v, 'c) execution_params)"
  hook_onSubscribe ::
    "('s, 'd, 'v, 'c) execution_args \<Rightarrow> error + ('s, 'd, 'v, 'c) execution_args"
  parse :: "string \<Rightarrow> error + 'd"
  hook_validationRules :: "'v \<Rightarrow> string option \<Rightarrow> error + 'r list"
  staticValidationRules :: "'r list"
  validate :: "'s option \<Rightarrow> 'd \<Rightarrow> 'r list \<Rightarrow> error + 'g list"
  message :: "'g \<Rightarrow> string"
  handleErrors_ws :: "'g list \<Rightarrow> error + 'f list"

text \<open>\<^verbatim>\<open>Array.prototype.join\<close>.\<close>

fun join :: "string \<Rightarrow> string list \<Rightarrow> string" where
  "join sep [] = []"
| "join sep [x] = x"
| "join sep (x # y # ys) = x @ sep @ join sep (y # ys)"

text \<open>
  How the promise of \<^verbatim>\<open>onOperation\<close> rejects: with an error of one of the steps, or with the
  error \<^verbatim>\<open>'Query validation failed: \n...'\<close> that carries the validation errors in its
  \<^verbatim>\<open>errors\<close> property.
\<close>

datatype 'g rejection = Failed error | QueryValidationFailed string "'g list"

definition validation_message :: "('g \<Rightarrow> string) \<Rightarrow> 'g list \<Rightarrow> string" where
  "validation_message msg errs =
     ''Query validation failed: '' @ [CHR 0x0A] @ join [CHR 0x0A] (map msg errs)"

text \<open>The document of the hooked parameters: parsed if the query is a string.\<close>

definition query_document ::
  "('s, 'd, 'r, 'g, 'f, 'v, 'c) bridge \<Rightarrow> ('s, 'd, 'v, 'c) execution_params \<Rightarrow> error + 'd" where
  "query_document b hookedParams =
     (case params_query hookedParams of Inr d \<Rightarrow> Inr d | Inl str \<Rightarrow> parse b str)"

text \<open>
  \<^verbatim>\<open>onOperation\<close> (v0). It resolves to the final parameters, which the subscription server
  then validates against the static rules and executes, or it rejects. After the hook
  \<^verbatim>\<open>'postgraphile:ws:onOperation'\<close>, the variables, the operation name and the schema are
  read from the object \<^verbatim>\<open>params\<close> as the hook left it (\<open>params'\<close>), and the query from the
  value the hook returned.
\<close>

definition onOperation ::
  "('s, 'd, 'r, 'g, 'f, 'v, 'c) bridge \<Rightarrow> ('s, 'd, 'v, 'c) execution_params
     \<Rightarrow> 'g rejection + ('s, 'd, 'v, 'c) execution_params" where
  "onOperation b params0 =
     (case getContext b of
        Inl e \<Rightarrow> Inl (Failed e)
      | Inr c \<Rightarrow>
     (case current_schema b of
        Inl e \<Rightarrow> Inl (Failed e)
      | Inr s \<Rightarrow>
     (case reqResFromSocket b of
        Some e \<Rightarrow> Inl (Failed e)
      | None \<Rightarrow>
     (let params = params0\<lparr>params_schema := Some s,
                    params_context := assign_context b (params_context params0) c,
                    params_formatResponse := True\<rparr>
      in case hook_onOperation b params of
        Inl e \<Rightarrow> Inl (Failed e)
      | Inr (params', hookedParams) \<Rightarrow>
     (case query_document b hookedParams of
        Inl e \<Rightarrow> Inl (Failed e)
      | Inr doc \<Rightarrow>
     (let finalParams = hookedParams\<lparr>params_query := Inr doc\<rparr>
      in case hook_validationRules b (params_variables params') (params_operationName params') of
        Inl e \<Rightarrow> Inl (Failed e)
      | Inr moreValidationRules \<Rightarrow>
          if moreValidationRules \<noteq> [] then
            (case validate b (params_schema params') doc moreValidationRules of
               Inl e \<Rightarrow> Inl (Failed e)
             | Inr validationErrors \<Rightarrow>
                 if validationErrors \<noteq> []
                 then Inl (QueryValidationFailed
                             (validation_message (message b) validationErrors) validationErrors)
                 else Inr finalParams)
          else Inr finalParams))))))"

text \<open>
  \<^verbatim>\<open>onSubscribe\<close> (v1). It returns a list of errors, which the server sends to the client
  instead of executing, or the execution arguments, or it throws.
\<close>

datatype ('g, 'a) subscribe_result = Errors "'g list" | Args 'a

definition onSubscribe ::
  "('s, 'd, 'r, 'g, 'f, 'v, 'c) bridge \<Rightarrow> 'v payload
     \<Rightarrow> error + ('g, ('s, 'd, 'v, 'c) execution_args) subscribe_result" where
  "onSubscribe b pl =
     (case getContext b of
        Inl e \<Rightarrow> Inl e
      | Inr c \<Rightarrow>
     (case current_schema b of
        Inl e \<Rightarrow> Inl e
      | Inr s \<Rightarrow>
     (case parse b (payload_query pl) of
        Inl e \<Rightarrow> Inl e
      | Inr doc \<Rightarrow>
     (case hook_onSubscribe b
             \<lparr>args_schema = s, args_contextValue = c,
              args_operationName = payload_operationName pl, document = doc,
              variableValues = payload_variables pl\<rparr> of
        Inl e \<Rightarrow> Inl e
      | Inr hookedArgs \<Rightarrow>
     (case validate b (Some (args_schema hookedArgs)) (document hookedArgs)
             (staticValidationRules b) of
        Inl e \<Rightarrow> Inl e
      | Inr validationErrors \<Rightarrow>
          if validationErrors \<noteq> [] then Inr (Errors validationErrors)
          else
     (case reqResFromSocket b of
        Some e \<Rightarrow> Inl e
      | None \<Rightarrow>
     (case hook_validationRules b (variableValues hookedArgs) (args_operationName hookedArgs) of
        Inl e \<Rightarrow> Inl e
      | Inr moreValidationRules \<Rightarrow>
          if moreValidationRules \<noteq> [] then
            (case validate b (Some (args_schema hookedArgs)) (document hookedArgs)
                    moreValidationRules of
               Inl e \<Rightarrow> Inl e
             | Inr moreValidationErrors \<Rightarrow>
                 if moreValidationErrors \<noteq> [] then Inr (Errors moreValidationErrors)
                 else Inr (Args hookedArgs))
          else Inr (Args hookedArgs))))))))"

text \<open>
  \<^verbatim>\<open>onError\<close> (v1): the errors that \<^verbatim>\<open>onSubscribe\<close> returned go to the client through
  \<^verbatim>\<open>handleErrors\<close>.
\<close>

definition onError ::
  "('s, 'd, 'r, 'g, 'f, 'v, 'c) bridge \<Rightarrow> 'g list \<Rightarrow> error + 'f list" where
  "onError b errors =
     (case reqResFromSocket b of Some e \<Rightarrow> Inl e | None \<Rightarrow> handleErrors_ws b errors)"

text \<open>
  What the per-request rule set reports for a document: the rules are those of the hook
  \<^verbatim>\<open>'postgraphile:validationRules'\<close>, and \<^verbatim>\<open>validate\<close> is called once with all of them; no
  rules, no violations.
\<close>

definition per_request_errors ::
  "('s, 'd, 'r, 'g, 'f, 'v, 'c) bridge \<Rightarrow> 's option \<Rightarrow> 'd \<Rightarrow> 'v \<Rightarrow> string option
     \<Rightarrow> error + 'g list" where
  "per_request_errors b s doc vars opName =
     (case hook_validationRules b vars opName of
        Inl e \<Rightarrow> Inl e
      | Inr rules \<Rightarrow> if rules = [] then Inr [] else validate b s doc rules)"

subsection \<open>Example values\<close>

text \<open>
  Objects handed to the adapter: a pool of another module instance of \<^verbatim>\<open>pg\<close> (not an
  instance of this module's \<^verbatim>\<open>Pool\<close>); a plain configuration object; an object whose
  constructor is the parent class of \<^verbatim>\<open>Pool\<close> and that has no \<^verbatim>\<open>query\<close> function; an object of
  a class named \<^verbatim>\<open>Pool\<close> that has no \<^verbatim>\<open>query\<close> function; and \<^verbatim>\<open>Object.create(null)\<close>. Then a
  socket on which nothing has been stored yet.
\<close>

definition duck_typed_pool :: jsobject where
  "duck_typed_pool = \<lparr>ident = 1, isCallable = False, instanceofPool = False,
     constructorIsFunction = True, constructorIsPoolSuper = False,
     constructor_name = JPrim (JStr ''BoundPool''), hasClient = True, hasOptions = True,
     connectIsFunction = True, endIsFunction = True, queryIsFunction = True,
     string_form = Inr ''[object Object]'', protoIsNullOrObjectPrototype = False\<rparr>"

definition plain_config :: jsobject where
  "plain_config = \<lparr>ident = 2, isCallable = False, instanceofPool = False,
     constructorIsFunction = True, constructorIsPoolSuper = False,
     constructor_name = JPrim (JStr ''Object''), hasClient = False, hasOptions = False,
     connectIsFunction = False, endIsFunction = False, queryIsFunction = False,
     string_form = Inr ''[object Object]'', protoIsNullOrObjectPrototype = True\<rparr>"

definition parent_class_pool :: jsobject where
  "parent_class_pool = duck_typed_pool\<lparr>ident := 3, constructorIsPoolSuper := True,
     constructor_name := JPrim (JStr ''EventEmitter''), queryIsFunction := False\<rparr>"

definition impostor_pool :: jsobject where
  "impostor_pool = duck_typed_pool\<lparr>ident := 4, constructor_name := JPrim (JStr ''Pool''),
     queryIsFunction := False\<rparr>"

definition bare_object :: jsobject where
  "bare_object = \<lparr>ident = 5, isCallable = False, instanceofPool = False,
     constructorIsFunction = False, constructorIsPoolSuper = False,
     constructor_name = JPrim JUndefined, hasClient = False, hasOptions = False,
     connectIsFunction = False, endIsFunction = False, queryIsFunction = False,
     string_form = Inl CannotConvertObjectToPrimitive, protoIsNullOrObjectPrototype = True\<rparr>"

definition new_socket :: socket where
  "new_socket = \<lparr>postgraphileId = None, postgraphileReq = None, postgraphileHeaders = None\<rparr>"

text \<open>
  Builders: one whose first build fails and whose retry hook approves after a second; one
  whose first two builds fail and whose hook approves after 1 ms and then after 60 ms; one
  without a hook that retries after two failures; one in watch mode whose watcher first
  hands a snapshot to the callback and then rejects (as when a listener of
  \<^verbatim>\<open>'schemas:changed'\<close> throws), and succeeds with another snapshot the next time; and one
  in watch mode whose watcher resolves without ever calling the callback.
\<close>

definition slow_hook_env :: "nat builder_env" where
  "slow_hook_env =
     \<lparr>env_options = empty_options\<lparr>retryOnInitFail := RetryFn (\<lambda>e k. HookResolves True 1 0)\<rparr>,
      releasePgPool = None,
      createPostGraphileSchema = (\<lambda>k. if k < 1 then Inl (External ''down'') else Inr 7),
      watchPostGraphileSchema = (\<lambda>k. \<lparr>delivered = [], rejected = None\<rparr>)\<rparr>"

definition quick_hook_env :: "nat builder_env" where
  "quick_hook_env =
     \<lparr>env_options = empty_options\<lparr>retryOnInitFail :=
        RetryFn (\<lambda>e k. HookResolves True 0 (if k = 1 then 1000000 else 60000000))\<rparr>,
      releasePgPool = None,
      createPostGraphileSchema = (\<lambda>k. if k < 2 then Inl (External ''down'') else Inr 7),
      watchPostGraphileSchema = (\<lambda>k. \<lparr>delivered = [], rejected = None\<rparr>)\<rparr>"

definition plain_retry_env :: "nat builder_env" where
  "plain_retry_env =
     \<lparr>env_options = empty_options\<lparr>retryOnInitFail := RetryTruthy\<rparr>,
      releasePgPool = None,
      createPostGraphileSchema = (\<lambda>k. if k < 2 then Inl (External ''down'') else Inr 7),
      watchPostGraphileSchema = (\<lambda>k. \<lparr>delivered = [], rejected = None\<rparr>)\<rparr>"

definition late_failure_watch_env :: "nat builder_env" where
  "late_failure_watch_env =
     \<lparr>env_options = empty_options\<lparr>watchPg := True, retryOnInitFail := RetryTruthy\<rparr>,
      releasePgPool = None,
      createPostGraphileSchema = (\<lambda>k. Inr 7),
      watchPostGraphileSchema =
        (\<lambda>k. if k = 0 then \<lparr>delivered = [7], rejected = Some (External ''listener failed'')\<rparr>
             else \<lparr>delivered = [8], rejected = None\<rparr>)\<rparr>"

definition silent_watch_env :: "nat builder_env" where
  "silent_watch_env =
     \<lparr>env_options = empty_options\<lparr>watchPg := True, retryOnInitFail := RetryTruthy\<rparr>,
      releasePgPool = None,
      createPostGraphileSchema = (\<lambda>k. Inr 7),
      watchPostGraphileSchema = (\<lambda>k. \<lparr>delivered = [], rejected = None\<rparr>)\<rparr>"

text \<open>
  A bridge for one operation: the validation rules hook adds two rules when the variables
  are \<open>True\<close>, every rule reports one violation, and the other hooks change nothing.
\<close>

definition example_bridge :: "(nat, string, string, string, string, bool, nat) bridge" where
  "example_bridge =
     \<lparr>getContext = Inr 1, current_schema = Inr 7, reqResFromSocket = None,
      assign_context = (\<lambda>a c. c), hook_onOperation = (\<lambda>p. Inr (p, p)),
      hook_onSubscribe = Inr, parse = Inr,
      hook_validationRules = (\<lambda>vars opName. Inr (if vars then [''depth'', ''cost''] else [])),
      staticValidationRules = [],
      validate = (\<lambda>s doc rules. Inr (map (\<lambda>r. r @ '' rule violated by '' @ doc) rules)),
      message = id,
      handleErrors_ws = (\<lambda>errs. Inr (map (\<lambda>e. ''error: '' @ e) errs))\<rparr>"

text \<open>
  The same bridge with a hook \<^verbatim>\<open>'postgraphile:ws:onOperation'\<close> that sets the variables of
  \<^verbatim>\<open>params\<close> in place and returns \<^verbatim>\<open>params\<close>.
\<close>

definition mutating_bridge :: "(nat, string, string, string, string, bool, nat) bridge" where
  "mutating_bridge =
     example_bridge\<lparr>hook_onOperation :=
       (\<lambda>p. Inr (p\<lparr>params_variables := True\<rparr>, p\<lparr>params_variables := True\<rparr>))\<rparr>"

text \<open>The header that later stages read from the socket: \<^verbatim>\<open>socket['postgraphileHeaders'][k]\<close>.\<close>

definition effective_header :: "socket \<Rightarrow> string \<Rightarrow> jsval" where
  "effective_header sock k =
     (case postgraphileHeaders sock of Some m \<Rightarrow> get_prop m k | None \<Rightarrow> JPrim JUndefined)"

section \<open>Properties of the pool adapter\<close>

lemma quacks_is_object: "quacksLikePgPool v = Inr True \<Longrightarrow> \<exists>ob. v = Obj ob"
  by (cases v) simp_all

lemma quacks_error_is_object: "quacksLikePgPool v = Inl e \<Longrightarrow> \<exists>ob. v = Obj ob"
  by (cases v) simp_all

lemma quacksLikePgPool_iff:
  "quacksLikePgPool (Obj ob) = Inr True \<longleftrightarrow>
     (instanceofPool ob
      \<or> (constructorIsFunction ob \<and> constructorIsPoolSuper ob)
      \<or> (\<not> isCallable ob
          \<and> (constructorName (Obj ob) = Inr (Some ''Pool'')
               \<or> constructorName (Obj ob) = Inr (Some ''BoundPool''))
          \<and> hasClient ob \<and> hasOptions ob
          \<and> connectIsFunction ob \<and> endIsFunction ob \<and> queryIsFunction ob))"
  by (cases "constructorName (Obj ob)")
    (auto simp del: constructorName.simps split: if_splits)

lemma toPgPool_raises_iff:
  "(\<exists>e. toPgPool v = Inl e) \<longleftrightarrow>
     ((\<exists>e. quacksLikePgPool v = Inl e)
      \<or> (quacksLikePgPool v = Inr False \<and> \<not> typeof_string v \<and> truthy_mixed v
          \<and> isPlainObject v \<noteq> Inr True))"
proof (cases v rule: toPgPool.cases)
  case (1 ob)
  then show ?thesis
    by (cases "quacksLikePgPool (Obj ob)"; cases "isPlainObject (Obj ob)")
      (auto simp del: quacksLikePgPool.simps isPlainObject.simps split: bool.splits)
qed auto

text \<open>
  C7, as the code has it. A value is recognised as a pool handle exactly when it is an
  object that is an instance of \<^verbatim>\<open>Pool\<close>, or whose constructor is the parent class of
  \<^verbatim>\<open>Pool\<close>, or that is not callable, has a constructor named \<^verbatim>\<open>Pool\<close> or \<^verbatim>\<open>BoundPool\<close>, and
  has a \<^verbatim>\<open>Client\<close>, an \<^verbatim>\<open>options\<close> field and \<^verbatim>\<open>connect\<close>, \<^verbatim>\<open>end\<close> and \<^verbatim>\<open>query\<close> functions. A
  recognised value comes back as the same handle with no release callback. A string, a
  plain object, and any falsy value that is not a string (\<^verbatim>\<open>undefined\<close>, \<^verbatim>\<open>null\<close>, \<^verbatim>\<open>false\<close>,
  \<^verbatim>\<open>0\<close>) give a new pool with a release callback that ends that pool. The adapter raises
  an error on exactly the other inputs, which are truthy: the error
  \<^verbatim>\<open>'Invalid connection string / Pool '\<close> when the tests return, and otherwise the error
  that \<^verbatim>\<open>String\<close> threw on the name of the constructor or on the object itself.
\<close>

theorem toPgPool_adapter:
  "(quacksLikePgPool v = Inr True \<longleftrightarrow>
      (\<exists>ob. v = Obj ob
         \<and> (instanceofPool ob
             \<or> (constructorIsFunction ob \<and> constructorIsPoolSuper ob)
             \<or> (\<not> isCallable ob
                 \<and> (constructorName (Obj ob) = Inr (Some ''Pool'')
                      \<or> constructorName (Obj ob) = Inr (Some ''BoundPool''))
                 \<and> hasClient ob \<and> hasOptions ob
                 \<and> connectIsFunction ob \<and> endIsFunction ob \<and> queryIsFunction ob))))
   \<and> (quacksLikePgPool v = Inr True
        \<longrightarrow> (\<exists>h. v = Obj h \<and> toPgPool v = Inr (Supplied h, None)))
   \<and> (toPgPool (Prim (JStr s))
        = Inr (Created (ConnectionString s), Some (EndPool (Created (ConnectionString s)))))
   \<and> (quacksLikePgPool (Obj ob) = Inr False \<and> isPlainObject (Obj ob) = Inr True
        \<longrightarrow> toPgPool (Obj ob)
            = Inr (Created (ConfigObject ob), Some (EndPool (Created (ConfigObject ob)))))
   \<and> (\<not> typeof_string v \<and> \<not> truthy_mixed v
        \<longrightarrow> toPgPool v = Inr (Created EmptyConfig, Some (EndPool (Created EmptyConfig))))
   \<and> ((\<exists>e. toPgPool v = Inl e) \<longleftrightarrow>
         ((\<exists>e. quacksLikePgPool v = Inl e)
          \<or> (quacksLikePgPool v = Inr False \<and> \<not> typeof_string v \<and> truthy_mixed v
              \<and> isPlainObject v \<noteq> Inr True)))
   \<and> (quacksLikePgPool v = Inr False \<and> \<not> typeof_string v \<and> truthy_mixed v
        \<and> isPlainObject v = Inr False
        \<longrightarrow> toPgPool v = Inl InvalidConnectionStringOrPool)
   \<and> (quacksLikePgPool v = Inl e \<or> (quacksLikePgPool v = Inr False \<and> isPlainObject v = Inl e)
        \<longrightarrow> toPgPool v = Inl e
            \<and> (\<exists>h. v = Obj h
                  \<and> (String_val (constructor_name h) = Inl e \<or> string_form h = Inl e)))"
proof (intro conjI impI)
  show "quacksLikePgPool v = Inr True \<longleftrightarrow>
      (\<exists>ob. v = Obj ob
         \<and> (instanceofPool ob
             \<or> (constructorIsFunction ob \<and> constructorIsPoolSuper ob)
             \<or> (\<not> isCallable ob
                 \<and> (constructorName (Obj ob) = Inr (Some ''Pool'')
                      \<or> constructorName (Obj ob) = Inr (Some ''BoundPool''))
                 \<and> hasClient ob \<and> hasOptions ob
                 \<and> connectIsFunction ob \<and> endIsFunction ob \<and> queryIsFunction ob)))"
  proof (cases v)
    case (Prim p)
    then show ?thesis by simp
  next
    case (Obj ob')
    with quacksLikePgPool_iff [of ob'] show ?thesis by simp
  qed
next
  assume q: "quacksLikePgPool v = Inr True"
  then obtain h where "v = Obj h" using quacks_is_object by blast
  with q show "\<exists>h. v = Obj h \<and> toPgPool v = Inr (Supplied h, None)"
    by (simp del: quacksLikePgPool.simps)
next
  show "toPgPool (Prim (JStr s))
        = Inr (Created (ConnectionString s), Some (EndPool (Created (ConnectionString s))))"
    by simp
next
  assume "quacksLikePgPool (Obj ob) = Inr False \<and> isPlainObject (Obj ob) = Inr True"
  then show "toPgPool (Obj ob)
            = Inr (Created (ConfigObject ob), Some (EndPool (Created (ConfigObject ob))))"
    by (simp del: quacksLikePgPool.simps isPlainObject.simps)
next
  assume "\<not> typeof_string v \<and> \<not> truthy_mixed v"
  then show "toPgPool v = Inr (Created EmptyConfig, Some (EndPool (Created EmptyConfig)))"
    by (cases v rule: toPgPool.cases) auto
next
  show "(\<exists>e. toPgPool v = Inl e) \<longleftrightarrow>
         ((\<exists>e. quacksLikePgPool v = Inl e)
          \<or> (quacksLikePgPool v = Inr False \<and> \<not> typeof_string v \<and> truthy_mixed v
              \<and> isPlainObject v \<noteq> Inr True))"
    by (rule toPgPool_raises_iff)
next
  assume "quacksLikePgPool v = Inr False \<and> \<not> typeof_string v \<and> truthy_mixed v
        \<and> isPlainObject v = Inr False"
  then show "toPgPool v = Inl InvalidConnectionStringOrPool"
    by (cases v rule: toPgPool.cases)
      (simp_all del: quacksLikePgPool.simps isPlainObject.simps)
next
  assume a: "quacksLikePgPool v = Inl e
             \<or> (quacksLikePgPool v = Inr False \<and> isPlainObject v = Inl e)"
  then obtain ob' where v: "v = Obj ob'"
    by (cases v) auto
  from a v show "toPgPool v = Inl e"
    by (auto simp del: quacksLikePgPool.simps isPlainObject.simps)
  from a v have "String_val (constructor_name ob') = Inl e \<or> string_form ob' = Inl e"
    by (auto split: if_splits sum.splits)
  with v show "\<exists>h. v = Obj h
                  \<and> (String_val (constructor_name h) = Inl e \<or> string_form h = Inl e)"
    by simp
qed

theorem toPgPool_adapter_witness:
  "toPgPool (Obj duck_typed_pool) = Inr (Supplied duck_typed_pool, None)
   \<and> toPgPool (Obj parent_class_pool) = Inr (Supplied parent_class_pool, None)
   \<and> toPgPool (Obj plain_config)
       = Inr (Created (ConfigObject plain_config),
              Some (EndPool (Created (ConfigObject plain_config))))
   \<and> toPgPool (Prim JUndefined) = Inr (Created EmptyConfig, Some (EndPool (Created EmptyConfig)))
   \<and> toPgPool (Prim (JNum True ''5'')) = Inl InvalidConnectionStringOrPool
   \<and> toPgPool (Obj impostor_pool) = Inl InvalidConnectionStringOrPool
   \<and> toPgPool (Obj bare_object) = Inl CannotConvertObjectToPrimitive"
  using toPgPool_adapter [of "Obj duck_typed_pool" "''postgres:///db''" plain_config]
    toPgPool_adapter [of "Obj parent_class_pool" "''postgres:///db''" plain_config]
    toPgPool_adapter [of "Prim JUndefined" "''postgres:///db''" plain_config]
    toPgPool_adapter [of "Prim (JNum True ''5'')" "''postgres:///db''" plain_config]
    toPgPool_adapter [of "Obj impostor_pool" "''postgres:///db''" plain_config]
    toPgPool_adapter [of "Obj bare_object" "''postgres:///db''" plain_config
                         CannotConvertObjectToPrimitive]
  by (simp add: duck_typed_pool_def plain_config_def parent_class_pool_def impostor_pool_def
      bare_object_def)

text \<open>
  C7 as stated fails at the number \<^verbatim>\<open>0\<close>, which is neither a pool handle, nor a string, nor
  a plain object, nor nothing: it gets a default pool, not an error.
\<close>

theorem toPgPool_zero_counterexample:
  "quacksLikePgPool (Prim (JNum False ''0'')) = Inr False
   \<and> \<not> typeof_string (Prim (JNum False ''0''))
   \<and> isPlainObject (Prim (JNum False ''0'')) = Inr False
   \<and> Prim (JNum False ''0'') \<noteq> Prim JUndefined
   \<and> toPgPool (Prim (JNum False ''0''))
       = Inr (Created EmptyConfig, Some (EndPool (Created EmptyConfig)))"
  by simp

section \<open>Properties of \<^verbatim>\<open>postgraphile\<close> and of the handler's \<^verbatim>\<open>release\<close>\<close>

lemma schema_and_options_undefined_first:
  "schema_and_options c = Inl e \<Longrightarrow> e = SecondArgumentInvalid"
  by (auto simp: schema_and_options_def split: second_argument.splits if_splits)

text \<open>
  C10. A call that passes at least one argument, the first being \<^verbatim>\<open>undefined\<close>, throws (the
  error about the first argument, or the one about the second argument when that is
  invalid too). A call without arguments returns a handler whose pool is made from the
  empty configuration, unless the plugins turn the empty options into a conflicting
  combination of error options.
\<close>

theorem postgraphile_first_argument:
  "(arguments_length c \<ge> 1 \<and> poolOrConfig c = Prim JUndefined
      \<longrightarrow> postgraphile hook c = Inl FirstArgumentUndefined
          \<or> postgraphile hook c = Inl SecondArgumentInvalid)
   \<and> (\<not> (handleErrors (hook empty_options empty_options)
          \<and> (extendedErrors (hook empty_options empty_options)
              \<or> showErrorStack (hook empty_options empty_options)))
      \<longrightarrow> postgraphile hook Call0
          = Inr \<lparr>handler_pgPool = Created EmptyConfig,
                 handler_releasePgPool = Some (EndPool (Created EmptyConfig)),
                 handler_options = hook empty_options empty_options,
                 handler_pgSchemas = [''public''],
                 ownerConnectionString = None\<rparr>)"
proof (intro conjI impI)
  assume a: "arguments_length c \<ge> 1 \<and> poolOrConfig c = Prim JUndefined"
  show "postgraphile hook c = Inl FirstArgumentUndefined
          \<or> postgraphile hook c = Inl SecondArgumentInvalid"
  proof (cases "schema_and_options c")
    case (Inl e)
    then have "e = SecondArgumentInvalid" by (rule schema_and_options_undefined_first)
    with Inl show ?thesis by (simp add: postgraphile_def)
  next
    case (Inr p)
    with a show ?thesis by (cases p) (simp add: postgraphile_def)
  qed
next
  assume "\<not> (handleErrors (hook empty_options empty_options)
          \<and> (extendedErrors (hook empty_options empty_options)
              \<or> showErrorStack (hook empty_options empty_options)))"
  then show "postgraphile hook Call0
          = Inr \<lparr>handler_pgPool = Created EmptyConfig,
                 handler_releasePgPool = Some (EndPool (Created EmptyConfig)),
                 handler_options = hook empty_options empty_options,
                 handler_pgSchemas = [''public''],
                 ownerConnectionString = None\<rparr>"
    by (auto simp: postgraphile_def schema_and_options_def getPostgraphileSchemaBuilder_def
        empty_options_def Let_def)
qed

theorem postgraphile_first_argument_witness:
  "postgraphile (\<lambda>opts. id) (Call1 (Prim JUndefined)) = Inl FirstArgumentUndefined
   \<and> postgraphile (\<lambda>opts. id) (Call2 (Prim JUndefined) SecondOther) = Inl SecondArgumentInvalid
   \<and> (\<exists>h. postgraphile (\<lambda>opts. id) Call0 = Inr h \<and> handler_pgPool h = Created EmptyConfig)"
  using postgraphile_first_argument [of "Call1 (Prim JUndefined)" "\<lambda>opts. id"]
    postgraphile_first_argument [of "Call2 (Prim JUndefined) SecondOther" "\<lambda>opts. id"]
  by (simp add: postgraphile_def schema_and_options_def empty_options_def)

text \<open>
  The guard of \<^verbatim>\<open>releaseOnce\<close>: whatever the first call did, a second call is refused.
\<close>

lemma releaseOnce_second_call:
  "fst (releaseOnce rel (snd (releaseOnce rel w))) = Some AlreadyReleased"
  by (auto simp: releaseOnce_def releaseWatch_def Pool_end_def emit_def Let_def split: option.splits)

lemma release_once_created_pool:
  "\<not> poolEnded w \<Longrightarrow> release (Some f) w = (None, w') \<Longrightarrow> poolEnded w'"
  by (auto simp: release_def releaseWatch_def Pool_end_def emit_def Let_def split: if_splits)

text \<open>
  C3 at a handler made from a pool of the caller: \<^verbatim>\<open>release\<close> does not go through
  \<^verbatim>\<open>releaseOnce\<close>, and a second call of it returns as quietly as the first, with or without
  a watch to release.
\<close>

theorem release_twice_supplied_pool:
  "postgraphile (\<lambda>opts. id) (Call1 (Obj duck_typed_pool))
     = Inr \<lparr>handler_pgPool = Supplied duck_typed_pool, handler_releasePgPool = None,
            handler_options = empty_options, handler_pgSchemas = [''public''],
            ownerConnectionString = None\<rparr>
   \<and> fst (release None (initial_world :: nat world)) = None
   \<and> fst (release None (snd (release None (initial_world :: nat world)))) = None
   \<and> fst (release None (initial_world \<lparr>releaseWatchFn := True\<rparr> :: nat world)) = None
   \<and> fst (release None (snd (release None (initial_world \<lparr>releaseWatchFn := True\<rparr> :: nat world))))
       = None"
proof (intro conjI)
  show "postgraphile (\<lambda>opts. id) (Call1 (Obj duck_typed_pool))
     = Inr \<lparr>handler_pgPool = Supplied duck_typed_pool, handler_releasePgPool = None,
            handler_options = empty_options, handler_pgSchemas = [''public''],
            ownerConnectionString = None\<rparr>"
    by (simp add: postgraphile_def schema_and_options_def getPostgraphileSchemaBuilder_def
        Let_def duck_typed_pool_def) (simp add: empty_options_def)
qed (simp_all add: release_def releaseWatch_def initial_world_def emit_def)

section \<open>Properties of the schema build loop\<close>

lemma sleeps_append [simp]: "sleeps (xs @ ys) = sleeps xs @ sleeps ys"
  by (induction xs rule: sleeps.induct) simp_all

lemma hook_calls_append [simp]: "hook_calls (xs @ ys) = hook_calls xs @ hook_calls ys"
  by (induction xs rule: hook_calls.induct) simp_all

lemma callbacks_keep:
  "attempts (foldl newSchema_callback w ss) = attempts w
   \<and> releaseWatchFn (foldl newSchema_callback w ss) = releaseWatchFn w
   \<and> sleeps (trace (foldl newSchema_callback w ss)) = sleeps (trace w)
   \<and> hook_calls (trace (foldl newSchema_callback w ss)) = hook_calls (trace w)"
  by (induction ss arbitrary: w)
    (simp_all add: newSchema_callback_def exportGqlSchema_def emit_def)

lemma callbacks_gqlSchema:
  "gqlSchema (foldl newSchema_callback w ss) = (if ss = [] then gqlSchema w else Some (last ss))"
  by (induction ss arbitrary: w)
    (simp_all add: newSchema_callback_def exportGqlSchema_def emit_def)

lemma build_attempt_fails:
  assumes "attempt_error env (attempts w) = Some e"
    and "watchPg (env_options env) \<longrightarrow> \<not> releaseWatchFn w"
  shows "\<exists>w1. build_attempt env w = (w1, Inl e) \<and> attempts w1 = attempts w
           \<and> releaseWatchFn w1 = releaseWatchFn w
           \<and> sleeps (trace w1) = sleeps (trace w)
           \<and> hook_calls (trace w1) = hook_calls (trace w)"
  using assms
  by (auto simp: build_attempt_def attempt_error_def Let_def callbacks_keep
      split: sum.splits if_splits option.splits)

lemma build_attempt_succeeds:
  assumes "attempt_succeeds env (attempts w)"
    and "watchPg (env_options env) \<longrightarrow> \<not> releaseWatchFn w"
  shows "\<exists>w1 s. build_attempt env w = (w1, Inr s) \<and> attempts w1 = attempts w
           \<and> gqlSchema w1 = Some s
           \<and> sleeps (trace w1) = sleeps (trace w)
           \<and> hook_calls (trace w1) = hook_calls (trace w)"
  using assms
  by (auto simp: build_attempt_def attempt_succeeds_def Let_def callbacks_keep
      callbacks_gqlSchema exportGqlSchema_def emit_def
      split: sum.splits if_splits option.splits)

lemma on_failure_retries:
  assumes "retry_approved (retryOnInitFail (env_options env)) e (Suc (attempts w))"
  shows "\<exists>w'. on_failure env e w = (w', None) \<and> attempts w' = Suc (attempts w)
           \<and> releaseWatchFn w' = releaseWatchFn w
           \<and> sleeps (trace w') = sleeps (trace w)
                @ default_waits (retryOnInitFail (env_options env)) e (Suc (attempts w))
           \<and> hook_calls (trace w') = hook_calls (trace w)
                @ hook_invocations (retryOnInitFail (env_options env)) e (Suc (attempts w))"
proof (cases "retryOnInitFail (env_options env)")
  case RetryUnset
  with assms show ?thesis by (simp add: retry_approved_def)
next
  case RetryTruthy
  then show ?thesis
    by (simp add: on_failure_def Let_def sleep_def emit_def default_waits_def
        hook_invocations_def)
next
  case (RetryFn f)
  with assms obtain sec nsec where "f e (Suc (attempts w)) = HookResolves True sec nsec"
    by (cases "f e (Suc (attempts w))") (auto simp: retry_approved_def)
  with RetryFn show ?thesis
    by (simp add: on_failure_def Let_def sleep_def emit_def default_waits_def
        hook_invocations_def)
qed


lemma iteration_fails:
  assumes "attempt_error env (attempts w) = Some e"
    and "retry_approved (retryOnInitFail (env_options env)) e (Suc (attempts w))"
    and "watchPg (env_options env) \<longrightarrow> \<not> releaseWatchFn w"
  shows "\<exists>w'. iteration env w = (w', None) \<and> attempts w' = Suc (attempts w)
           \<and> releaseWatchFn w' = releaseWatchFn w
           \<and> sleeps (trace w') = sleeps (trace w)
                @ default_waits (retryOnInitFail (env_options env)) e (Suc (attempts w))
           \<and> hook_calls (trace w') = hook_calls (trace w)
                @ hook_invocations (retryOnInitFail (env_options env)) e (Suc (attempts w))"
proof -
  from build_attempt_fails [OF assms(1) assms(3)]
  obtain w1 where w1: "build_attempt env w = (w1, Inl e)" "attempts w1 = attempts w"
    "releaseWatchFn w1 = releaseWatchFn w" "sleeps (trace w1) = sleeps (trace w)"
    "hook_calls (trace w1) = hook_calls (trace w)"
    by blast
  from assms(2) w1(2)
  have "retry_approved (retryOnInitFail (env_options env)) e (Suc (attempts w1))" by simp
  from on_failure_retries [OF this] w1 show ?thesis
    by (simp add: iteration_def)
qed

lemma iteration_succeeds:
  assumes "attempt_succeeds env (attempts w)"
    and "watchPg (env_options env) \<longrightarrow> \<not> releaseWatchFn w"
  shows "\<exists>w' s. iteration env w = (w', Some (Resolved s)) \<and> attempts w' = attempts w
           \<and> gqlSchema w' = Some s
           \<and> sleeps (trace w') = sleeps (trace w)
           \<and> hook_calls (trace w') = hook_calls (trace w)"
proof -
  from build_attempt_succeeds [OF assms]
  obtain w1 s where "build_attempt env w = (w1, Inr s)" "attempts w1 = attempts w"
    "gqlSchema w1 = Some s" "sleeps (trace w1) = sleeps (trace w)"
    "hook_calls (trace w1) = hook_calls (trace w)"
    by blast
  then show ?thesis
    by (simp add: iteration_def emit_def)
qed

lemma createGqlSchema_general:
  assumes "all_approved env a n" and "attempt_succeeds env (a + n)"
    and "attempts w = a" and "watchPg (env_options env) \<longrightarrow> \<not> releaseWatchFn w"
  shows "\<exists>w' s. createGqlSchema (Suc n) env w = Some (w', Resolved s)
           \<and> attempts w' = a + n \<and> gqlSchema w' = Some s
           \<and> sleeps (trace w') = sleeps (trace w) @ expected_waits env a n
           \<and> hook_calls (trace w') = hook_calls (trace w) @ expected_hook_calls env a n"
  using assms
proof (induction n arbitrary: a w)
  case 0
  then have "attempt_succeeds env (attempts w)" by simp
  from iteration_succeeds [OF this "0.prems"(4)] "0.prems"(3) show ?case
    by auto
next
  case (Suc n)
  from Suc.prems(1) obtain e where e: "attempt_error env a = Some e"
    and appr: "retry_approved (retryOnInitFail (env_options env)) e (Suc a)"
    and rest: "all_approved env (Suc a) n"
    by (auto split: option.splits)
  from e appr Suc.prems(3)
  have "attempt_error env (attempts w) = Some e"
    "retry_approved (retryOnInitFail (env_options env)) e (Suc (attempts w))"
    by simp_all
  from iteration_fails [OF this Suc.prems(4)] Suc.prems(3)
  obtain w1 where w1: "iteration env w = (w1, None)" "attempts w1 = Suc a"
    "releaseWatchFn w1 = releaseWatchFn w"
    "sleeps (trace w1) = sleeps (trace w)
       @ default_waits (retryOnInitFail (env_options env)) e (Suc a)"
    "hook_calls (trace w1) = hook_calls (trace w)
       @ hook_invocations (retryOnInitFail (env_options env)) e (Suc a)"
    by auto
  from Suc.prems(2) have succ: "attempt_succeeds env (Suc a + n)" by simp
  from w1(3) Suc.prems(4) have "watchPg (env_options env) \<longrightarrow> \<not> releaseWatchFn w1" by simp
  from Suc.IH [OF rest succ w1(2) this]
  obtain w' s where "createGqlSchema (Suc n) env w1 = Some (w', Resolved s)"
    "attempts w' = Suc a + n" "gqlSchema w' = Some s"
    "sleeps (trace w') = sleeps (trace w1) @ expected_waits env (Suc a) n"
    "hook_calls (trace w') = hook_calls (trace w1) @ expected_hook_calls env (Suc a) n"
    by blast
  with w1 e show ?case by simp
qed

lemma expected_without_hook:
  assumes "\<forall>f. retryOnInitFail (env_options env) \<noteq> RetryFn f" and "all_approved env a n"
  shows "expected_waits env a n = map backoff [Suc a..<Suc (a + n)]
         \<and> expected_hook_calls env a n = []"
  using assms(2)
proof (induction n arbitrary: a)
  case 0
  then show ?case by simp
next
  case (Suc n)
  from Suc.prems obtain e where e: "attempt_error env a = Some e"
    and appr: "retry_approved (retryOnInitFail (env_options env)) e (Suc a)"
    and rest: "all_approved env (Suc a) n"
    by (auto split: option.splits)
  from appr assms(1) have pol: "retryOnInitFail (env_options env) = RetryTruthy"
    by (cases "retryOnInitFail (env_options env)") (simp_all add: retry_approved_def)
  have "[Suc a..<Suc (a + Suc n)] = Suc a # [Suc (Suc a)..<Suc (Suc a + n)]"
    by (simp add: upt_conv_Cons)
  with Suc.IH [OF rest] e pol show ?case
    by (simp add: default_waits_def hook_invocations_def)
qed

lemma expected_with_hook:
  assumes "retryOnInitFail (env_options env) = RetryFn f" and "all_approved env a n"
  shows "map snd (expected_hook_calls env a n) = [Suc a..<Suc (a + n)]
         \<and> list_all (\<lambda>(e, k). attempt_error env (k - 1) = Some e) (expected_hook_calls env a n)
         \<and> expected_waits env a n
             = map (\<lambda>(e, k). backoff k)
                 (filter (\<lambda>(e, k). hook_quick (f e k)) (expected_hook_calls env a n))"
  using assms(2)
proof (induction n arbitrary: a)
  case 0
  then show ?case by simp
next
  case (Suc n)
  from Suc.prems obtain e where e: "attempt_error env a = Some e"
    and rest: "all_approved env (Suc a) n"
    by (auto split: option.splits)
  have "[Suc a..<Suc (a + Suc n)] = Suc a # [Suc (Suc a)..<Suc (Suc a + n)]"
    by (simp add: upt_conv_Cons)
  with Suc.IH [OF rest] e assms(1) show ?case
    by (simp add: default_waits_def hook_invocations_def)
qed

text \<open>
  C2, as the code has it. Let the build fail \<open>N\<close> times and then succeed, and let the retry
  policy allow each retry (\<^verbatim>\<open>retryOnInitFail\<close> is a truthy value that is not a function, or
  a function that approves every time). Then the promise resolves within \<open>N + 1\<close> turns.
  Without a hook function the loop waits exactly \<open>N\<close> times, \<open>min (100 * k\<^sup>2) 30000\<close> ms
  after failure \<open>k\<close>. With a hook function, the hook is called once per failure, with that
  failure's error and the attempt numbers \<open>1, \<dots>, N\<close> in order, and the loop itself waits
  (the same delay) after exactly those failures for which the hook answered in under 50 ms.
\<close>

theorem createGqlSchema_backoff:
  assumes "fails_then_succeeds env N" and "all_approved env 0 N"
  shows "\<exists>sl hc s. run_summary (Suc N) env = Some (sl, hc, Resolved s)
           \<and> (case retryOnInitFail (env_options env) of
                 RetryFn f \<Rightarrow>
                   map snd hc = [1..<Suc N]
                   \<and> list_all (\<lambda>(e, k). attempt_error env (k - 1) = Some e) hc
                   \<and> sl = map (\<lambda>(e, k). backoff k) (filter (\<lambda>(e, k). hook_quick (f e k)) hc)
               | _ \<Rightarrow> hc = [] \<and> sl = map backoff [1..<Suc N])"
proof -
  from assms(1) have succ: "attempt_succeeds env (0 + N)"
    by (simp add: fails_then_succeeds_def)
  have init: "attempts (initial_world :: 's world) = 0"
    "watchPg (env_options env) \<longrightarrow> \<not> releaseWatchFn (initial_world :: 's world)"
    by (simp_all add: initial_world_def)
  from createGqlSchema_general [OF assms(2) succ init]
  obtain w' s where run: "createGqlSchema (Suc N) env initial_world = Some (w', Resolved s)"
    and sl: "sleeps (trace w') = expected_waits env 0 N"
    and hc: "hook_calls (trace w') = expected_hook_calls env 0 N"
    by (auto simp: initial_world_def)
  have summary: "run_summary (Suc N) env
      = Some (expected_waits env 0 N, expected_hook_calls env 0 N, Resolved s)"
    unfolding run_summary_def run by (simp add: sl hc)
  show ?thesis
  proof (cases "retryOnInitFail (env_options env)")
    case (RetryFn f)
    from expected_with_hook [OF this assms(2)] RetryFn summary show ?thesis by simp
  next
    case RetryUnset
    then have "\<forall>f. retryOnInitFail (env_options env) \<noteq> RetryFn f" by simp
    from expected_without_hook [OF this assms(2)] RetryUnset summary show ?thesis by simp
  next
    case RetryTruthy
    then have "\<forall>f. retryOnInitFail (env_options env) \<noteq> RetryFn f" by simp
    from expected_without_hook [OF this assms(2)] RetryTruthy summary show ?thesis by simp
  qed
qed

theorem createGqlSchema_backoff_witness:
  "fails_then_succeeds quick_hook_env (Suc (Suc 0))
   \<and> all_approved quick_hook_env 0 (Suc (Suc 0))
   \<and> (\<exists>s. run_summary (Suc (Suc (Suc 0))) quick_hook_env
            = Some ([100], [(External ''down'', 1), (External ''down'', 2)], Resolved s))
   \<and> fails_then_succeeds plain_retry_env (Suc (Suc 0))
   \<and> all_approved plain_retry_env 0 (Suc (Suc 0))
   \<and> (\<exists>s. run_summary (Suc (Suc (Suc 0))) plain_retry_env
            = Some ([100, 400], [], Resolved s))"
proof -
  have q1: "fails_then_succeeds quick_hook_env (Suc (Suc 0))"
    by (simp add: fails_then_succeeds_def attempt_error_def attempt_succeeds_def
        quick_hook_env_def empty_options_def)
  have q2: "all_approved quick_hook_env 0 (Suc (Suc 0))"
    by (simp add: attempt_error_def retry_approved_def quick_hook_env_def empty_options_def)
  have p1: "fails_then_succeeds plain_retry_env (Suc (Suc 0))"
    by (simp add: fails_then_succeeds_def attempt_error_def attempt_succeeds_def
        plain_retry_env_def empty_options_def)
  have p2: "all_approved plain_retry_env 0 (Suc (Suc 0))"
    by (simp add: attempt_error_def retry_approved_def plain_retry_env_def empty_options_def)
  from createGqlSchema_backoff [OF q1 q2]
  obtain sl hc s where q: "run_summary (Suc (Suc (Suc 0))) quick_hook_env = Some (sl, hc, Resolved s)"
    "map snd hc = [1..<Suc (Suc (Suc 0))]"
    "list_all (\<lambda>(e, k). attempt_error quick_hook_env (k - 1) = Some e) hc"
    "sl = map (\<lambda>(e, k). backoff k)
            (filter (\<lambda>(e, k). hook_quick (HookResolves True 0 (if k = 1 then 1000000 else 60000000))) hc)"
    by (auto simp: quick_hook_env_def empty_options_def)
  from q(2) obtain e1 e2 where hc: "hc = [(e1, 1), (e2, 2)]"
    by (auto simp: upt_rec map_eq_Cons_conv)
  with q(3) have "e1 = External ''down''" "e2 = External ''down''"
    by (auto simp: attempt_error_def quick_hook_env_def empty_options_def)
  with hc q(4) have "hc = [(External ''down'', 1), (External ''down'', 2)]" "sl = [100]"
    by (simp_all add: backoff_def)
  with q(1) have Q: "\<exists>s. run_summary (Suc (Suc (Suc 0))) quick_hook_env
            = Some ([100], [(External ''down'', 1), (External ''down'', 2)], Resolved s)"
    by blast
  have pol: "retryOnInitFail (env_options plain_retry_env) = RetryTruthy"
    by (simp add: plain_retry_env_def empty_options_def)
  have waits: "map backoff [1..<Suc (Suc (Suc 0))] = [100, 400]"
    by (simp add: upt_rec backoff_def power2_eq_square)
  from createGqlSchema_backoff [OF p1 p2]
  have "\<exists>sl hc s. run_summary (Suc (Suc (Suc 0))) plain_retry_env = Some (sl, hc, Resolved s)
          \<and> hc = [] \<and> sl = map backoff [1..<Suc (Suc (Suc 0))]"
    by (simp add: pol)
  with waits have P: "\<exists>s. run_summary (Suc (Suc (Suc 0))) plain_retry_env
            = Some ([100, 400], [], Resolved s)"
    by auto
  from q1 q2 Q p1 p2 P show ?thesis by blast
qed

text \<open>
  C2 as stated fails: a hook that approves the retry after a second leaves the loop
  without any wait of its own, where the claim expects one wait of 100 ms.
\<close>

theorem slow_hook_counterexample:
  "fails_then_succeeds slow_hook_env 1
   \<and> run_summary (Suc (Suc 0)) slow_hook_env = Some ([], [(External ''down'', 1)], Resolved 7)
   \<and> map backoff [1..<2] = [100]"
proof (intro conjI)
  let ?w1 = "(initial_world :: nat world)
               \<lparr>attempts := 1, trace := [RetryHookCalled (External ''down'') 1]\<rparr>"
  let ?w2 = "(initial_world :: nat world)
               \<lparr>attempts := 1, gqlSchema := Some 7,
                trace := [RetryHookCalled (External ''down'') 1, ExportSchema 7,
                          SuccessLogged ''now'']\<rparr>"
  have turn1: "iteration slow_hook_env initial_world = (?w1, None)"
    by (simp add: iteration_def build_attempt_def on_failure_def slow_hook_env_def
        empty_options_def initial_world_def emit_def Let_def)
  have turn2: "iteration slow_hook_env ?w1 = (?w2, Some (Resolved 7))"
    by (simp add: iteration_def build_attempt_def slow_hook_env_def empty_options_def
        initial_world_def emit_def exportGqlSchema_def)
  have run: "createGqlSchema (Suc (Suc 0)) slow_hook_env initial_world = Some (?w2, Resolved 7)"
    by (simp only: createGqlSchema.simps turn1 turn2 prod.case option.case)
  show "fails_then_succeeds slow_hook_env 1"
    by (simp add: fails_then_succeeds_def attempt_error_def attempt_succeeds_def
        slow_hook_env_def empty_options_def)
  show "run_summary (Suc (Suc 0)) slow_hook_env = Some ([], [(External ''down'', 1)], Resolved 7)"
    unfolding run_summary_def run by (simp add: initial_world_def)
  show "map backoff [1..<2] = [100]"
    by (simp add: backoff_def upt_rec)
qed

lemma watch_retry_never_settles:
  assumes "watchPg (env_options env)" and "retryOnInitFail (env_options env) = RetryTruthy"
  shows "releaseWatchFn w \<Longrightarrow> createGqlSchema n env w = None"
proof (induction n arbitrary: w)
  case 0
  show ?case by simp
next
  case (Suc n)
  from Suc.prems assms
  have "\<exists>w'. iteration env w = (w', None) \<and> releaseWatchFn w'"
    by (simp add: iteration_def build_attempt_def on_failure_def Let_def sleep_def emit_def)
  then obtain w' where "iteration env w = (w', None)" "releaseWatchFn w'" by blast
  with Suc.IH show ?case by simp
qed

text \<open>
  C4 at a builder in watch mode with \<^verbatim>\<open>retryOnInitFail: true\<close> whose watcher resolves without
  calling the callback: the consistency error is thrown inside the \<^verbatim>\<open>try\<close> block and caught
  like a failed build. The loop logs it, waits 100 ms and goes round again; from then on
  every turn fails on \<^verbatim>\<open>releaseWatchFn\<close> being set, and the promise never settles.
\<close>

theorem consistency_error_is_retried:
  "iteration silent_watch_env initial_world
     = (initial_world\<lparr>releaseWatchFn := True, attempts := 1,
          trace := [SeriousErrorLogged ConsistencyError 1 False, Sleep 100]\<rparr>, None)
   \<and> iteration silent_watch_env
       (initial_world\<lparr>releaseWatchFn := True, attempts := 1,
          trace := [SeriousErrorLogged ConsistencyError 1 False, Sleep 100]\<rparr>)
     = (initial_world\<lparr>releaseWatchFn := True, attempts := 2,
          trace := [SeriousErrorLogged ConsistencyError 1 False, Sleep 100,
                    SeriousErrorLogged ReleaseWatchFnSet 2 False, Sleep 400]\<rparr>, None)
   \<and> createGqlSchema n silent_watch_env initial_world = None"
proof (intro conjI)
  let ?w1 = "(initial_world :: nat world)\<lparr>releaseWatchFn := True, attempts := 1,
          trace := [SeriousErrorLogged ConsistencyError 1 False, Sleep 100]\<rparr>"
  show turn1: "iteration silent_watch_env initial_world = (?w1, None)"
    by (simp add: iteration_def build_attempt_def on_failure_def silent_watch_env_def
        empty_options_def initial_world_def sleep_def emit_def backoff_def Let_def
        power2_eq_square)
  show "iteration silent_watch_env ?w1
     = (initial_world\<lparr>releaseWatchFn := True, attempts := 2,
          trace := [SeriousErrorLogged ConsistencyError 1 False, Sleep 100,
                    SeriousErrorLogged ReleaseWatchFnSet 2 False, Sleep 400]\<rparr>, None)"
    by (simp add: iteration_def build_attempt_def on_failure_def silent_watch_env_def
        empty_options_def initial_world_def sleep_def emit_def backoff_def Let_def
        power2_eq_square)
  have stuck: "createGqlSchema m silent_watch_env ?w1 = None" for m
    by (rule watch_retry_never_settles)
      (simp_all add: silent_watch_env_def empty_options_def initial_world_def)
  show "createGqlSchema n silent_watch_env initial_world = None"
  proof (cases n)
    case 0
    then show ?thesis by simp
  next
    case (Suc m)
    then show ?thesis by (simp only: createGqlSchema.simps turn1 prod.case option.case stuck)
  qed
qed

lemma on_failure_keeps_gqlSchema:
  "on_failure env e w = (w', r) \<Longrightarrow> gqlSchema w' = gqlSchema w"
  by (auto simp: on_failure_def Let_def sleep_def emit_def releaseOnce_def releaseWatch_def
      Pool_end_def split: retry_policy.splits hook_result.splits if_splits option.splits)

lemma on_failure_counts:
  "on_failure env e w = (w', None) \<Longrightarrow> attempts w' = Suc (attempts w)"
  by (auto simp: on_failure_def Let_def sleep_def emit_def releaseOnce_def releaseWatch_def
      Pool_end_def split: retry_policy.splits hook_result.splits if_splits option.splits)


lemma build_attempt_in_flight:
  assumes "gqlSchema w = None"
    and "watchPg (env_options env) \<longrightarrow> delivered (watchPostGraphileSchema env (attempts w)) = []"
    and "build_attempt env w = (w1, Inl e)"
  shows "gqlSchema w1 = None \<and> attempts w1 = attempts w"
  using assms
  by (auto simp: build_attempt_def Let_def split: if_splits option.splits sum.splits)

lemma iteration_in_flight:
  assumes "gqlSchema w = None"
    and "watchPg (env_options env) \<longrightarrow> delivered (watchPostGraphileSchema env (attempts w)) = []"
    and "iteration env w = (w', None)"
  shows "gqlSchema w' = None \<and> attempts w' = Suc (attempts w)"
proof (cases "build_attempt env w")
  case (Pair w1 r)
  show ?thesis
  proof (cases r)
    case (Inl e)
    with Pair assms(3) have f: "on_failure env e w1 = (w', None)"
      by (simp add: iteration_def)
    from build_attempt_in_flight [OF assms(1,2)] Pair Inl
    have "gqlSchema w1 = None \<and> attempts w1 = attempts w" by simp
    with on_failure_keeps_gqlSchema [OF f] on_failure_counts [OF f] show ?thesis by simp
  next
    case (Inr s)
    with Pair assms(3) show ?thesis
      by (simp add: iteration_def split: if_splits)
  qed
qed

lemma turns_in_flight:
  assumes "turns k env w0 = Some w" and "gqlSchema w0 = None"
    and "watchPg (env_options env) \<longrightarrow>
           list_all (\<lambda>j. delivered (watchPostGraphileSchema env j) = [])
             [attempts w0..<attempts w0 + k]"
  shows "gqlSchema w = None"
  using assms
proof (induction k arbitrary: w0)
  case 0
  then show ?case by simp
next
  case (Suc k)
  from Suc.prems(1) obtain w1 where it: "iteration env w0 = (w1, None)"
    and rest: "turns k env w1 = Some w"
    by (auto split: prod.splits option.splits)
  from Suc.prems(3)
  have now: "watchPg (env_options env)
        \<longrightarrow> delivered (watchPostGraphileSchema env (attempts w0)) = []"
    and later: "watchPg (env_options env) \<longrightarrow>
           list_all (\<lambda>j. delivered (watchPostGraphileSchema env j) = [])
             [Suc (attempts w0)..<Suc (attempts w0) + k]"
    by (auto simp: list_all_iff)
  from iteration_in_flight [OF Suc.prems(2) now it]
  have w1: "gqlSchema w1 = None" "attempts w1 = Suc (attempts w0)" by simp_all
  from later w1(2) have "watchPg (env_options env) \<longrightarrow>
           list_all (\<lambda>j. delivered (watchPostGraphileSchema env j) = [])
             [attempts w1..<attempts w1 + k]" by simp
  from Suc.IH [OF rest w1(1) this] show ?case .
qed

lemma on_failure_not_resolved: "on_failure env e w \<noteq> (w', Some (Resolved s))"
  by (auto simp: on_failure_def Let_def sleep_def emit_def releaseOnce_def releaseWatch_def
      Pool_end_def split: retry_policy.splits hook_result.splits if_splits option.splits)

lemma build_attempt_stores:
  "build_attempt env w = (w1, Inr s) \<Longrightarrow> gqlSchema w1 = Some s"
  by (auto simp: build_attempt_def Let_def exportGqlSchema_def emit_def
      split: if_splits option.splits sum.splits)

lemma iteration_resolved:
  assumes "iteration env w = (w', Some (Resolved s))"
  shows "gqlSchema w' = Some s"
proof (cases "build_attempt env w")
  case (Pair w1 r)
  show ?thesis
  proof (cases r)
    case (Inl e)
    with Pair assms have "on_failure env e w1 = (w', Some (Resolved s))"
      by (simp add: iteration_def)
    then show ?thesis by (simp add: on_failure_not_resolved)
  next
    case (Inr s')
    with Pair have "gqlSchema w1 = Some s'" by (simp add: build_attempt_stores)
    with Pair Inr assms show ?thesis
      by (auto simp: iteration_def emit_def split: if_splits)
  qed
qed

lemma createGqlSchema_resolved:
  "createGqlSchema n env w = Some (w', Resolved s) \<Longrightarrow> gqlSchema w' = Some s"
proof (induction n arbitrary: w)
  case 0
  then show ?case by simp
next
  case (Suc n)
  show ?case
  proof (cases "iteration env w")
    case (Pair w1 r)
    show ?thesis
    proof (cases r)
      case None
      with Pair Suc.prems have "createGqlSchema n env w1 = Some (w', Resolved s)" by simp
      then show ?thesis by (rule Suc.IH)
    next
      case (Some r')
      with Pair Suc.prems have "iteration env w = (w', Some (Resolved s))" by simp
      then show ?thesis by (rule iteration_resolved)
    qed
  qed
qed

text \<open>
  C6, as the code has it. \<^verbatim>\<open>getGraphQLSchema\<close> only reads the builder, so it starts no build.
  While the one build of the builder is in flight and no snapshot has been stored yet
  (after any number of turns that did not settle, the watcher, if there is one, having
  delivered nothing), every call returns the one promise \<^verbatim>\<open>gqlSchemaPromise\<close>. As soon as
  a snapshot is stored, which in watch mode the callback does before the build's promise
  resolves, every call returns a promise resolved to the current snapshot. When the
  build's promise resolves to a snapshot, that snapshot is the current one.
\<close>

theorem getGraphQLSchema_one_build:
  "(turns k env initial_world = Some w
      \<and> (watchPg (env_options env)
           \<longrightarrow> list_all (\<lambda>j. delivered (watchPostGraphileSchema env j) = []) [0..<k])
     \<longrightarrow> getGraphQLSchema w = GqlSchemaPromise)
   \<and> (gqlSchema w0 = Some s0 \<longrightarrow> getGraphQLSchema w0 = Promise_resolve s0)
   \<and> getGraphQLSchema (newSchema_callback w0 s0) = Promise_resolve s0
   \<and> (createGqlSchema n env initial_world = Some (w', Resolved s)
     \<longrightarrow> getGraphQLSchema w' = Promise_resolve s)"
proof (intro conjI impI)
  assume a: "turns k env initial_world = Some w
      \<and> (watchPg (env_options env)
           \<longrightarrow> list_all (\<lambda>j. delivered (watchPostGraphileSchema env j) = []) [0..<k])"
  have "gqlSchema (initial_world :: 'a world) = None"
    "attempts (initial_world :: 'a world) = 0"
    by (simp_all add: initial_world_def)
  with a turns_in_flight [of k env initial_world w] have "gqlSchema w = None" by simp
  then show "getGraphQLSchema w = GqlSchemaPromise" by (simp add: getGraphQLSchema_def)
next
  assume "gqlSchema w0 = Some s0"
  then show "getGraphQLSchema w0 = Promise_resolve s0" by (simp add: getGraphQLSchema_def)
next
  show "getGraphQLSchema (newSchema_callback w0 s0) = Promise_resolve s0"
    by (simp add: getGraphQLSchema_def newSchema_callback_def exportGqlSchema_def emit_def)
next
  assume "createGqlSchema n env initial_world = Some (w', Resolved s)"
  then have "gqlSchema w' = Some s" by (rule createGqlSchema_resolved)
  then show "getGraphQLSchema w' = Promise_resolve s" by (simp add: getGraphQLSchema_def)
qed

text \<open>The run of the builder whose first build fails, turn by turn.\<close>

lemma slow_hook_turn:
  "iteration slow_hook_env initial_world
     = (initial_world\<lparr>attempts := 1, trace := [RetryHookCalled (External ''down'') 1]\<rparr>, None)"
  by (simp add: iteration_def build_attempt_def on_failure_def slow_hook_env_def
      empty_options_def initial_world_def emit_def Let_def)

lemma slow_hook_run:
  "createGqlSchema (Suc (Suc 0)) slow_hook_env initial_world
     = Some (initial_world\<lparr>attempts := 1, gqlSchema := Some 7,
               trace := [RetryHookCalled (External ''down'') 1, ExportSchema 7,
                         SuccessLogged ''now'']\<rparr>, Resolved 7)"
proof -
  have "iteration slow_hook_env
          ((initial_world :: nat world)
             \<lparr>attempts := 1, trace := [RetryHookCalled (External ''down'') 1]\<rparr>)
        = (initial_world\<lparr>attempts := 1, gqlSchema := Some 7,
               trace := [RetryHookCalled (External ''down'') 1, ExportSchema 7,
                         SuccessLogged ''now'']\<rparr>, Some (Resolved 7))"
    by (simp add: iteration_def build_attempt_def slow_hook_env_def empty_options_def
        initial_world_def emit_def exportGqlSchema_def)
  then show ?thesis
    by (simp only: createGqlSchema.simps slow_hook_turn prod.case option.case)
qed

theorem getGraphQLSchema_one_build_witness:
  "turns (Suc 0) slow_hook_env initial_world
     = Some (initial_world\<lparr>attempts := 1, trace := [RetryHookCalled (External ''down'') 1]\<rparr>)
   \<and> getGraphQLSchema
        ((initial_world :: nat world)
           \<lparr>attempts := 1, trace := [RetryHookCalled (External ''down'') 1]\<rparr>)
      = GqlSchemaPromise
   \<and> createGqlSchema (Suc (Suc 0)) slow_hook_env initial_world
     = Some (initial_world\<lparr>attempts := 1, gqlSchema := Some 7,
               trace := [RetryHookCalled (External ''down'') 1, ExportSchema 7,
                         SuccessLogged ''now'']\<rparr>, Resolved 7)
   \<and> getGraphQLSchema
        ((initial_world :: nat world)\<lparr>attempts := 1, gqlSchema := Some 7,
               trace := [RetryHookCalled (External ''down'') 1, ExportSchema 7,
                         SuccessLogged ''now'']\<rparr>)
      = Promise_resolve 7"
proof -
  let ?w1 = "(initial_world :: nat world)
               \<lparr>attempts := 1, trace := [RetryHookCalled (External ''down'') 1]\<rparr>"
  let ?w2 = "(initial_world :: nat world)\<lparr>attempts := 1, gqlSchema := Some 7,
               trace := [RetryHookCalled (External ''down'') 1, ExportSchema 7,
                         SuccessLogged ''now'']\<rparr>"
  have t: "turns (Suc 0) slow_hook_env initial_world = Some ?w1"
    by (simp only: turns.simps slow_hook_turn prod.case option.case)
  have nowatch: "\<not> watchPg (env_options slow_hook_env)"
    by (simp add: slow_hook_env_def empty_options_def)
  from getGraphQLSchema_one_build
      [where k = "Suc 0" and env = slow_hook_env and w = ?w1 and n = "Suc (Suc 0)"
         and w' = ?w2 and s = 7 and ?w0.0 = ?w2 and ?s0.0 = 7]
    t nowatch slow_hook_run
  show ?thesis by simp
qed

text \<open>
  C6 as stated fails in watch mode. The watcher hands snapshot 7 to the callback and then
  rejects; the loop retries, so the build is still in flight, and a call made now returns
  a fresh promise resolved to 7 instead of the promise of the build, which later resolves
  to snapshot 8. Also when nothing fails, a call made between the callback and the
  resolution of the watcher (from a \<^verbatim>\<open>'schemas:changed'\<close> listener) gets a fresh promise.
\<close>

theorem snapshot_before_resolution_counterexample:
  "turns (Suc 0) late_failure_watch_env initial_world
     = Some (initial_world\<lparr>gqlSchema := Some 7, attempts := 1,
               trace := [SchemasChanged, ExportSchema 7,
                         SeriousErrorLogged (External ''listener failed'') 1 False, Sleep 100]\<rparr>)
   \<and> getGraphQLSchema
        ((initial_world :: nat world)\<lparr>gqlSchema := Some 7, attempts := 1,
               trace := [SchemasChanged, ExportSchema 7,
                         SeriousErrorLogged (External ''listener failed'') 1 False, Sleep 100]\<rparr>)
      = Promise_resolve 7
   \<and> Promise_resolve (7::nat) \<noteq> GqlSchemaPromise
   \<and> createGqlSchema (Suc (Suc 0)) late_failure_watch_env initial_world
      = Some (initial_world\<lparr>releaseWatchFn := True, gqlSchema := Some 8, attempts := 1,
               trace := [SchemasChanged, ExportSchema 7,
                         SeriousErrorLogged (External ''listener failed'') 1 False, Sleep 100,
                         SchemasChanged, ExportSchema 8, SuccessLogged ''now'']\<rparr>, Resolved 8)
   \<and> getGraphQLSchema (newSchema_callback (initial_world :: nat world) 7) = Promise_resolve 7"
proof (intro conjI)
  let ?w1 = "(initial_world :: nat world)\<lparr>gqlSchema := Some 7, attempts := 1,
               trace := [SchemasChanged, ExportSchema 7,
                         SeriousErrorLogged (External ''listener failed'') 1 False, Sleep 100]\<rparr>"
  let ?w2 = "(initial_world :: nat world)\<lparr>releaseWatchFn := True, gqlSchema := Some 8,
               attempts := 1,
               trace := [SchemasChanged, ExportSchema 7,
                         SeriousErrorLogged (External ''listener failed'') 1 False, Sleep 100,
                         SchemasChanged, ExportSchema 8, SuccessLogged ''now'']\<rparr>"
  have turn1: "iteration late_failure_watch_env initial_world = (?w1, None)"
    by (simp add: iteration_def build_attempt_def on_failure_def late_failure_watch_env_def
        empty_options_def initial_world_def newSchema_callback_def exportGqlSchema_def
        sleep_def emit_def backoff_def Let_def)
  have turn2: "iteration late_failure_watch_env ?w1 = (?w2, Some (Resolved 8))"
    by (simp add: iteration_def build_attempt_def late_failure_watch_env_def
        empty_options_def initial_world_def newSchema_callback_def exportGqlSchema_def
        emit_def Let_def)
  show "turns (Suc 0) late_failure_watch_env initial_world = Some ?w1"
    by (simp only: turns.simps turn1 prod.case option.case)
  show "getGraphQLSchema ?w1 = Promise_resolve 7"
    by (simp add: getGraphQLSchema_def initial_world_def)
  show "Promise_resolve (7::nat) \<noteq> GqlSchemaPromise" by simp
  show "createGqlSchema (Suc (Suc 0)) late_failure_watch_env initial_world
          = Some (?w2, Resolved 8)"
    by (simp only: createGqlSchema.simps turn1 turn2 prod.case option.case)
  show "getGraphQLSchema (newSchema_callback (initial_world :: nat world) 7) = Promise_resolve 7"
    by (simp add: getGraphQLSchema_def newSchema_callback_def exportGqlSchema_def emit_def)
qed

section \<open>Properties of the subscription bridge\<close>

lemma enhance_sets_flag:
  "postgraphileSubscriptionsEnabled (snd (enhanceHttpServerWithWebSockets opts schema sso srv))"
  by (auto simp: enhanceHttpServerWithWebSockets_def Let_def split: sum.splits option.splits)

lemma enhance_again_enabled:
  "postgraphileSubscriptionsEnabled srv
     \<Longrightarrow> enhance_again cs srv = (replicate (length cs) None, srv)"
proof (induction cs)
  case Nil
  show ?case by simp
next
  case (Cons c cs)
  obtain opts schema sso where c: "c = (opts, schema, sso)" by (cases c)
  from Cons.prems have "enhanceHttpServerWithWebSockets opts schema sso srv = (None, srv)"
    by (simp add: enhanceHttpServerWithWebSockets_def)
  with Cons c show ?case by simp
qed

text \<open>
  C9. Whatever the first call did (returned, or failed on the schema or on the protocol
  version), every later call on the same server, with whatever arguments, returns at once
  without an error and leaves the server as it is: no further upgrade listener, no further
  subscription server. The first call has set the flag, and each later call finds it.
\<close>

theorem enhance_idempotent:
  "postgraphileSubscriptionsEnabled (snd (enhanceHttpServerWithWebSockets opts schema sso srv))
   \<and> enhance_again cs (snd (enhanceHttpServerWithWebSockets opts schema sso srv))
       = (replicate (length cs) None, snd (enhanceHttpServerWithWebSockets opts schema sso srv))"
proof
  show flag: "postgraphileSubscriptionsEnabled
                (snd (enhanceHttpServerWithWebSockets opts schema sso srv))"
    by (rule enhance_sets_flag)
  from flag show "enhance_again cs (snd (enhanceHttpServerWithWebSockets opts schema sso srv))
       = (replicate (length cs) None, snd (enhanceHttpServerWithWebSockets opts schema sso srv))"
    by (rule enhance_again_enabled)
qed

theorem enhance_idempotent_witness:
  "enhanceHttpServerWithWebSockets \<lparr>externalUrlBase = None, graphqlRoute = None\<rparr>
     (Inr (1::nat)) (Some \<lparr>sso_graphqlRoute = None, sso_websockets = Some V1, operations_all = False\<rparr>)
     \<lparr>postgraphileSubscriptionsEnabled = False, upgradeListeners = [], subscriptionServers = []\<rparr>
   = (None, \<lparr>postgraphileSubscriptionsEnabled = True, upgradeListeners = [''/graphql''],
             subscriptionServers = [V1]\<rparr>)
   \<and> enhance_again
       [(\<lparr>externalUrlBase = None, graphqlRoute = None\<rparr>, Inr (1::nat),
         Some \<lparr>sso_graphqlRoute = None, sso_websockets = Some V1, operations_all = False\<rparr>),
        (\<lparr>externalUrlBase = None, graphqlRoute = Some ''/api''\<rparr>, Inr 2,
         Some \<lparr>sso_graphqlRoute = None, sso_websockets = Some V0, operations_all = True\<rparr>)]
       \<lparr>postgraphileSubscriptionsEnabled = True, upgradeListeners = [''/graphql''],
        subscriptionServers = [V1]\<rparr>
   = ([None, None], \<lparr>postgraphileSubscriptionsEnabled = True, upgradeListeners = [''/graphql''],
             subscriptionServers = [V1]\<rparr>)"
  using enhance_idempotent
    [of "\<lparr>externalUrlBase = None, graphqlRoute = None\<rparr>" "Inr (1::nat)"
        "Some \<lparr>sso_graphqlRoute = None, sso_websockets = Some V1, operations_all = False\<rparr>"
        "\<lparr>postgraphileSubscriptionsEnabled = False, upgradeListeners = [],
          subscriptionServers = []\<rparr>"
        "[(\<lparr>externalUrlBase = None, graphqlRoute = None\<rparr>, Inr (1::nat),
         Some \<lparr>sso_graphqlRoute = None, sso_websockets = Some V1, operations_all = False\<rparr>),
        (\<lparr>externalUrlBase = None, graphqlRoute = Some ''/api''\<rparr>, Inr 2,
         Some \<lparr>sso_graphqlRoute = None, sso_websockets = Some V0, operations_all = True\<rparr>)]"]
  by (simp add: enhanceHttpServerWithWebSockets_def the_graphqlRoute_def)

lemma map_add_upd_left: "m ++ ([k \<mapsto> v] ++ n) = (m(k \<mapsto> v)) ++ n"
  by (rule ext) (simp add: map_add_def split: option.splits)

lemma foldl_assign_lowered:
  "\<forall>kv\<in>set ps. lower (fst kv) \<noteq> ''__proto__'' \<Longrightarrow>
   foldl (assign_lowered lower) memo ps
     = memo\<lparr>own := own memo ++ map_of (rev (map (\<lambda>kv. (lower (fst kv), snd kv)) ps))\<rparr>"
proof (induction ps arbitrary: memo)
  case Nil
  then show ?case by simp
next
  case (Cons kv ps)
  let ?g = "\<lambda>kv. (lower (fst kv), snd kv)"
  let ?memo = "memo\<lparr>own := (own memo)(lower (fst kv) \<mapsto> snd kv)\<rparr>"
  from Cons.prems have step: "assign_lowered lower memo kv = ?memo"
    by (cases kv) (simp add: assign_lowered_def)
  from Cons.prems have rest: "\<forall>kv\<in>set ps. lower (fst kv) \<noteq> ''__proto__''"
    by simp
  have maps: "(own memo)(lower (fst kv) \<mapsto> snd kv) ++ map_of (rev (map ?g ps))
              = own memo ++ map_of (rev (map ?g (kv # ps)))"
    by (simp add: map_add_upd_left)
  have "foldl (assign_lowered lower) memo (kv # ps) = foldl (assign_lowered lower) ?memo ps"
    by (simp add: step)
  also have "\<dots> = ?memo\<lparr>own := own ?memo ++ map_of (rev (map ?g ps))\<rparr>"
    by (rule Cons.IH [OF rest])
  also have "\<dots> = memo\<lparr>own := (own memo)(lower (fst kv) \<mapsto> snd kv)
                                 ++ map_of (rev (map ?g ps))\<rparr>"
    by simp
  finally show ?case
    by (simp only: maps)
qed

lemma lowerCaseKeys_plain:
  "\<forall>kv\<in>set ps. lower (fst kv) \<noteq> ''__proto__'' \<Longrightarrow>
   lowerCaseKeys lower ps
     = \<lparr>own = map_of (rev (map (\<lambda>kv. (lower (fst kv), snd kv)) ps)), proto = ObjectPrototype\<rparr>"
  by (simp add: lowerCaseKeys_def foldl_assign_lowered)

lemma copy_authorization_connect_request:
  "copy_authorization (connect_request lower ps hdrs) =
     (if \<not> truthy_val (get_prop hdrs ''authorization'')
         \<and> truthy_val (read_normalized (lowerCaseKeys lower ps) ''authorization'')
      then (case String_val (read_normalized (lowerCaseKeys lower ps) ''authorization'') of
              Inl e \<Rightarrow> Inl e
            | Inr s \<Rightarrow>
                Inr ((connect_request lower ps hdrs)
                       \<lparr>headers := hdrs(''authorization'' \<mapsto> JPrim (JStr s))\<rparr>))
      else Inr (connect_request lower ps hdrs))"
  by (simp add: copy_authorization_def connect_request_def split: sum.splits)

lemma onConnect_versions_agree:
  "onConnect_v0 lower (Some ps) (Some hdrs) (n, sock) = onConnect_v1 lower (Some ps) hdrs (n, sock)"
  by (simp add: onConnect_v0_def onConnect_v1_def Let_def split: sum.splits)

lemma onConnect_v1_throws:
  assumes "\<not> truthy_val (get_prop hdrs ''authorization'')"
    and "truthy_val (read_normalized (lowerCaseKeys lower ps) ''authorization'')"
    and "String_val (read_normalized (lowerCaseKeys lower ps) ''authorization'') = Inl e"
  shows "onConnect_v1 lower (Some ps) hdrs (n, sock)
         = (Some e, n + 1, sock\<lparr>postgraphileId := Some (n + 1),
                                 postgraphileReq := Some (connect_request lower ps hdrs)\<rparr>)"
  using assms unfolding onConnect_v1_def copy_authorization_connect_request
  by (simp add: Let_def)

lemma onConnect_v1_copies:
  assumes "\<not> truthy_val (get_prop hdrs ''authorization'')"
    and "truthy_val (read_normalized (lowerCaseKeys lower ps) ''authorization'')"
    and "String_val (read_normalized (lowerCaseKeys lower ps) ''authorization'') = Inr s"
  shows "onConnect_v1 lower (Some ps) hdrs (n, sock)
         = (None, n + 1,
            sock\<lparr>postgraphileId := Some (n + 1),
                 postgraphileReq := Some ((connect_request lower ps hdrs)
                       \<lparr>headers := hdrs(''authorization'' \<mapsto> JPrim (JStr s))\<rparr>),
                 postgraphileHeaders :=
                   Some (own (lowerCaseKeys lower ps)
                           ++ hdrs(''authorization'' \<mapsto> JPrim (JStr s)))\<rparr>)"
  using assms unfolding onConnect_v1_def copy_authorization_connect_request
  by (simp add: Let_def effective_headers_def connect_request_def)

lemma onConnect_v1_keeps:
  assumes "truthy_val (get_prop hdrs ''authorization'')
           \<or> \<not> truthy_val (read_normalized (lowerCaseKeys lower ps) ''authorization'')"
  shows "onConnect_v1 lower (Some ps) hdrs (n, sock)
         = (None, n + 1,
            sock\<lparr>postgraphileId := Some (n + 1),
                 postgraphileReq := Some (connect_request lower ps hdrs),
                 postgraphileHeaders := Some (own (lowerCaseKeys lower ps) ++ hdrs)\<rparr>)"
  using assms unfolding onConnect_v1_def copy_authorization_connect_request
  by (auto simp: Let_def effective_headers_def connect_request_def)

lemma map_add_headers: "(ps ++ hdrs) k = (case hdrs k of Some v \<Rightarrow> Some v | None \<Rightarrow> ps k)"
  by (simp add: map_add_def split: option.splits)

text \<open>
  C1, as the code has it, for both protocol versions and for every way of lower-casing
  keys. Both versions do the same. When the \<^verbatim>\<open>authorization\<close> header is missing or falsy
  (the empty string), the \<^verbatim>\<open>authorization\<close> parameter is truthy and \<^verbatim>\<open>String\<close> throws on it,
  \<^verbatim>\<open>onConnect\<close> throws and stores no header map. In every other case it stores one, which
  on every key holds the real header when there is one and the own lower-cased
  connection parameter otherwise, with one exception: when the \<^verbatim>\<open>authorization\<close> header is
  missing or falsy and the \<^verbatim>\<open>authorization\<close> parameter is truthy, it holds the parameter,
  as a string. So a truthy \<^verbatim>\<open>authorization\<close> header is the one that is used. The
  \<^verbatim>\<open>authorization\<close> parameter is read from the normalised parameters, where it is an own
  property or inherited; when no key lower-cases to \<^verbatim>\<open>__proto__\<close> nothing is inherited, and
  the own properties are the parameters under their lower-cased keys, the last one
  winning among equal keys.
\<close>

theorem onConnect_headers_win:
  "onConnect_v0 lower (Some ps) (Some hdrs) (n, sock) = onConnect_v1 lower (Some ps) hdrs (n, sock)
   \<and> onConnect_v1 lower None hdrs (n, sock) = onConnect_v1 lower (Some []) hdrs (n, sock)
   \<and> (\<not> truthy_val (get_prop hdrs ''authorization'')
        \<and> truthy_val (read_normalized (lowerCaseKeys lower ps) ''authorization'')
        \<and> String_val (read_normalized (lowerCaseKeys lower ps) ''authorization'') = Inl e
       \<longrightarrow> fst (onConnect_v1 lower (Some ps) hdrs (n, sock)) = Some e
           \<and> postgraphileHeaders (snd (snd (onConnect_v1 lower (Some ps) hdrs (n, sock))))
               = postgraphileHeaders sock)
   \<and> (\<not> (\<not> truthy_val (get_prop hdrs ''authorization'')
           \<and> truthy_val (read_normalized (lowerCaseKeys lower ps) ''authorization'')
           \<and> (\<exists>e. String_val (read_normalized (lowerCaseKeys lower ps) ''authorization'') = Inl e))
       \<longrightarrow> fst (onConnect_v1 lower (Some ps) hdrs (n, sock)) = None
           \<and> (\<exists>m. postgraphileHeaders (snd (snd (onConnect_v1 lower (Some ps) hdrs (n, sock))))
                     = Some m
                 \<and> (\<forall>k. k \<noteq> ''authorization'' \<or> truthy_val (get_prop hdrs ''authorization'')
                          \<or> \<not> truthy_val
                                (read_normalized (lowerCaseKeys lower ps) ''authorization'')
                       \<longrightarrow> m k = (case hdrs k of
                                    Some v \<Rightarrow> Some v
                                  | None \<Rightarrow> own (lowerCaseKeys lower ps) k))
                 \<and> (\<forall>s. \<not> truthy_val (get_prop hdrs ''authorization'')
                          \<and> truthy_val
                              (read_normalized (lowerCaseKeys lower ps) ''authorization'')
                          \<and> String_val
                              (read_normalized (lowerCaseKeys lower ps) ''authorization'')
                            = Inr s
                       \<longrightarrow> m ''authorization'' = Some (JPrim (JStr s)))))
   \<and> (hdrs ''authorization'' = Some y \<and> truthy_val y
       \<longrightarrow> fst (onConnect_v1 lower (Some ps) hdrs (n, sock)) = None
           \<and> effective_header (snd (snd (onConnect_v1 lower (Some ps) hdrs (n, sock))))
               ''authorization'' = y)
   \<and> ((\<forall>kv\<in>set ps. lower (fst kv) \<noteq> ''__proto__'')
       \<longrightarrow> lowerCaseKeys lower ps
           = \<lparr>own = map_of (rev (map (\<lambda>kv. (lower (fst kv), snd kv)) ps)),
              proto = ObjectPrototype\<rparr>)"
proof (intro conjI impI)
  show "onConnect_v0 lower (Some ps) (Some hdrs) (n, sock)
        = onConnect_v1 lower (Some ps) hdrs (n, sock)"
    by (rule onConnect_versions_agree)
  show "onConnect_v1 lower None hdrs (n, sock) = onConnect_v1 lower (Some []) hdrs (n, sock)"
    by (simp add: onConnect_v1_def)
next
  assume a: "\<not> truthy_val (get_prop hdrs ''authorization'')
        \<and> truthy_val (read_normalized (lowerCaseKeys lower ps) ''authorization'')
        \<and> String_val (read_normalized (lowerCaseKeys lower ps) ''authorization'') = Inl e"
  then have r: "onConnect_v1 lower (Some ps) hdrs (n, sock)
         = (Some e, n + 1, sock\<lparr>postgraphileId := Some (n + 1),
                                 postgraphileReq := Some (connect_request lower ps hdrs)\<rparr>)"
    by (simp add: onConnect_v1_throws)
  show "fst (onConnect_v1 lower (Some ps) hdrs (n, sock)) = Some e"
    by (simp add: r)
  show "postgraphileHeaders (snd (snd (onConnect_v1 lower (Some ps) hdrs (n, sock))))
               = postgraphileHeaders sock"
    by (simp add: r)
next
  assume a: "\<not> (\<not> truthy_val (get_prop hdrs ''authorization'')
           \<and> truthy_val (read_normalized (lowerCaseKeys lower ps) ''authorization'')
           \<and> (\<exists>e. String_val (read_normalized (lowerCaseKeys lower ps) ''authorization'') = Inl e))"
  let ?A = "read_normalized (lowerCaseKeys lower ps) ''authorization''"
  consider (keeps) "truthy_val (get_prop hdrs ''authorization'') \<or> \<not> truthy_val ?A"
    | (copies) s where "\<not> truthy_val (get_prop hdrs ''authorization'')" "truthy_val ?A"
        "String_val ?A = Inr s"
    using a by (cases "String_val ?A") auto
  then have "fst (onConnect_v1 lower (Some ps) hdrs (n, sock)) = None
           \<and> (\<exists>m. postgraphileHeaders (snd (snd (onConnect_v1 lower (Some ps) hdrs (n, sock))))
                     = Some m
                 \<and> (\<forall>k. k \<noteq> ''authorization'' \<or> truthy_val (get_prop hdrs ''authorization'')
                          \<or> \<not> truthy_val ?A
                       \<longrightarrow> m k = (case hdrs k of
                                    Some v \<Rightarrow> Some v
                                  | None \<Rightarrow> own (lowerCaseKeys lower ps) k))
                 \<and> (\<forall>s. \<not> truthy_val (get_prop hdrs ''authorization'')
                          \<and> truthy_val ?A \<and> String_val ?A = Inr s
                       \<longrightarrow> m ''authorization'' = Some (JPrim (JStr s))))"
  proof cases
    case keeps
    then show ?thesis
      by (auto simp: onConnect_v1_keeps map_add_headers)
  next
    case copies
    then show ?thesis
      by (auto simp: onConnect_v1_copies [OF copies] map_add_def split: option.splits)
  qed
  then show "fst (onConnect_v1 lower (Some ps) hdrs (n, sock)) = None"
    and "\<exists>m. postgraphileHeaders (snd (snd (onConnect_v1 lower (Some ps) hdrs (n, sock))))
                     = Some m
                 \<and> (\<forall>k. k \<noteq> ''authorization'' \<or> truthy_val (get_prop hdrs ''authorization'')
                          \<or> \<not> truthy_val
                                (read_normalized (lowerCaseKeys lower ps) ''authorization'')
                       \<longrightarrow> m k = (case hdrs k of
                                    Some v \<Rightarrow> Some v
                                  | None \<Rightarrow> own (lowerCaseKeys lower ps) k))
                 \<and> (\<forall>s. \<not> truthy_val (get_prop hdrs ''authorization'')
                          \<and> truthy_val
                              (read_normalized (lowerCaseKeys lower ps) ''authorization'')
                          \<and> String_val
                              (read_normalized (lowerCaseKeys lower ps) ''authorization'')
                            = Inr s
                       \<longrightarrow> m ''authorization'' = Some (JPrim (JStr s)))"
    by blast+
next
  assume a: "hdrs ''authorization'' = Some y \<and> truthy_val y"
  then have "truthy_val (get_prop hdrs ''authorization'')"
    by (simp add: get_prop_def)
  then have r: "onConnect_v1 lower (Some ps) hdrs (n, sock)
         = (None, n + 1,
            sock\<lparr>postgraphileId := Some (n + 1),
                 postgraphileReq := Some (connect_request lower ps hdrs),
                 postgraphileHeaders := Some (own (lowerCaseKeys lower ps) ++ hdrs)\<rparr>)"
    by (simp add: onConnect_v1_keeps)
  show "fst (onConnect_v1 lower (Some ps) hdrs (n, sock)) = None"
    by (simp add: r)
  from a show "effective_header (snd (snd (onConnect_v1 lower (Some ps) hdrs (n, sock))))
               ''authorization'' = y"
    by (simp add: r effective_header_def get_prop_def map_add_def)
next
  assume "\<forall>kv\<in>set ps. lower (fst kv) \<noteq> ''__proto__''"
  then show "lowerCaseKeys lower ps
           = \<lparr>own = map_of (rev (map (\<lambda>kv. (lower (fst kv), snd kv)) ps)),
              proto = ObjectPrototype\<rparr>"
    by (rule lowerCaseKeys_plain)
qed


lemmas connect_eval =
  lowerCaseKeys_def assign_lowered_def toLowerCase_ascii_def lowerChar_def read_normalized_def
  get_prop_def effective_header_def new_socket_def

theorem onConnect_headers_win_witness:
  "effective_header
     (snd (snd (onConnect_v1 toLowerCase_ascii
        (Some [(''Authorization'', JPrim (JStr ''X'')), (''Foo'', JPrim (JNum True ''1''))])
        [''authorization'' \<mapsto> JPrim (JStr ''Y'')] (0, new_socket))))
     ''authorization'' = JPrim (JStr ''Y'')
   \<and> effective_header
     (snd (snd (onConnect_v0 toLowerCase_ascii
        (Some [(''Authorization'', JPrim (JStr ''X'')), (''Foo'', JPrim (JNum True ''1''))])
        (Some [''authorization'' \<mapsto> JPrim (JStr ''Y'')]) (0, new_socket))))
     ''foo'' = JPrim (JNum True ''1'')
   \<and> effective_header
     (snd (snd (onConnect_v1 toLowerCase_ascii
        (Some [(''Authorization'', JPrim (JNum True ''1e+21''))]) Map.empty (0, new_socket))))
     ''authorization'' = JPrim (JStr ''1e+21'')
   \<and> effective_header
     (snd (snd (onConnect_v1 toLowerCase_ascii
        (Some [(''__proto__'', JObject (Inr ''[object Object]'')
                                 [(''authorization'', JPrim (JStr ''X''))])])
        Map.empty (0, new_socket))))
     ''authorization'' = JPrim (JStr ''X'')
   \<and> onConnect_v1 toLowerCase_ascii
        (Some [(''authorization'', JObject (Inl CannotConvertObjectToPrimitive)
                                     [(''toString'', JPrim (JNum True ''1''))])])
        Map.empty (0, new_socket)
      = (Some CannotConvertObjectToPrimitive, 1,
         new_socket\<lparr>postgraphileId := Some 1,
           postgraphileReq := Some (connect_request toLowerCase_ascii
             [(''authorization'', JObject (Inl CannotConvertObjectToPrimitive)
                                     [(''toString'', JPrim (JNum True ''1''))])] Map.empty)\<rparr>)"
proof (intro conjI)
  let ?ps = "[(''Authorization'', JPrim (JStr ''X'')), (''Foo'', JPrim (JNum True ''1''))]"
  let ?hdrs = "[''authorization'' \<mapsto> JPrim (JStr ''Y'')]"
  note yx = onConnect_headers_win [of toLowerCase_ascii ?ps ?hdrs 0 new_socket
      CannotConvertObjectToPrimitive "JPrim (JStr ''Y'')"]
  from yx
  show "effective_header (snd (snd (onConnect_v1 toLowerCase_ascii (Some ?ps) ?hdrs
          (0, new_socket)))) ''authorization'' = JPrim (JStr ''Y'')"
    by simp
  from yx
  have "\<exists>m. postgraphileHeaders (snd (snd (onConnect_v1 toLowerCase_ascii (Some ?ps) ?hdrs
          (0, new_socket)))) = Some m \<and> m ''foo'' = Some (JPrim (JNum True ''1''))"
    by (auto simp: connect_eval)
  with yx
  show "effective_header (snd (snd (onConnect_v0 toLowerCase_ascii (Some ?ps) (Some ?hdrs)
          (0, new_socket)))) ''foo'' = JPrim (JNum True ''1'')"
    by (auto simp: effective_header_def get_prop_def)
next
  let ?ps = "[(''Authorization'', JPrim (JNum True ''1e+21''))]"
  from onConnect_headers_win [of toLowerCase_ascii ?ps Map.empty 0 new_socket
      CannotConvertObjectToPrimitive "JPrim (JStr ''Y'')"]
  show "effective_header (snd (snd (onConnect_v1 toLowerCase_ascii (Some ?ps) Map.empty
          (0, new_socket)))) ''authorization'' = JPrim (JStr ''1e+21'')"
    by (auto simp: connect_eval)
next
  let ?ps = "[(''__proto__'', JObject (Inr ''[object Object]'')
                                 [(''authorization'', JPrim (JStr ''X''))])]"
  from onConnect_headers_win [of toLowerCase_ascii ?ps Map.empty 0 new_socket
      CannotConvertObjectToPrimitive "JPrim (JStr ''Y'')"]
  show "effective_header (snd (snd (onConnect_v1 toLowerCase_ascii (Some ?ps) Map.empty
          (0, new_socket)))) ''authorization'' = JPrim (JStr ''X'')"
    by (auto simp: connect_eval)
next
  let ?ps = "[(''authorization'', JObject (Inl CannotConvertObjectToPrimitive)
                                     [(''toString'', JPrim (JNum True ''1''))])]"
  from onConnect_headers_win [of toLowerCase_ascii ?ps Map.empty 0 new_socket
      CannotConvertObjectToPrimitive "JPrim (JStr ''Y'')"]
  have "fst (onConnect_v1 toLowerCase_ascii (Some ?ps) Map.empty (0, new_socket))
        = Some CannotConvertObjectToPrimitive"
    by (simp add: connect_eval)
  then show "onConnect_v1 toLowerCase_ascii (Some ?ps) Map.empty (0, new_socket)
      = (Some CannotConvertObjectToPrimitive, 1,
         new_socket\<lparr>postgraphileId := Some 1,
           postgraphileReq := Some (connect_request toLowerCase_ascii ?ps Map.empty)\<rparr>)"
    by (simp add: onConnect_v1_def Let_def split: sum.splits)
qed

text \<open>
  C1 as stated fails: an \<^verbatim>\<open>authorization\<close> header that was sent with an empty value loses
  against the connection parameter.
\<close>

theorem onConnect_empty_header_counterexample:
  "get_prop [''authorization'' \<mapsto> JPrim (JStr '''')] ''authorization'' = JPrim (JStr '''')
   \<and> read_normalized (lowerCaseKeys toLowerCase_ascii [(''authorization'', JPrim (JStr ''X''))])
        ''authorization'' = JPrim (JStr ''X'')
   \<and> onConnect_v1 toLowerCase_ascii (Some [(''authorization'', JPrim (JStr ''X''))])
        [''authorization'' \<mapsto> JPrim (JStr '''')] (0, new_socket)
      = onConnect_v0 toLowerCase_ascii (Some [(''authorization'', JPrim (JStr ''X''))])
          (Some [''authorization'' \<mapsto> JPrim (JStr '''')]) (0, new_socket)
   \<and> fst (onConnect_v1 toLowerCase_ascii (Some [(''authorization'', JPrim (JStr ''X''))])
        [''authorization'' \<mapsto> JPrim (JStr '''')] (0, new_socket)) = None
   \<and> effective_header
        (snd (snd (onConnect_v1 toLowerCase_ascii (Some [(''authorization'', JPrim (JStr ''X''))])
                [''authorization'' \<mapsto> JPrim (JStr '''')] (0, new_socket))))
        ''authorization'' = JPrim (JStr ''X'')"
  by (simp add: onConnect_v1_def onConnect_v0_def connect_request_def
      effective_headers_def copy_authorization_def connect_eval)

lemma length_resolve [simp]: "length (resolve p h) = length h"
  by (simp add: resolve_def)

lemma nth_resolve:
  "r < length h \<Longrightarrow> resolve p h ! r = (if r = p then (h ! p)\<lparr>resolved := True\<rparr> else h ! r)"
  by (simp add: resolve_def)

lemma release_live_entry:
  assumes "keepalivePromisesByContextKey st (contextKey ws opId) = Some (Some p)"
  shows "releaseContextForSocketAndOpId ws opId st
         = st\<lparr>heap := resolve p (heap st),
              keepalivePromisesByContextKey :=
                (keepalivePromisesByContextKey st)(contextKey ws opId \<mapsto> None)\<rparr>"
  using assms by (simp add: releaseContextForSocketAndOpId_def)

lemma release_idle:
  assumes "\<forall>p. keepalivePromisesByContextKey st (contextKey ws opId) \<noteq> Some (Some p)"
  shows "releaseContextForSocketAndOpId ws opId st = st"
  using assms by (auto simp: releaseContextForSocketAndOpId_def split: option.splits)

lemma slots_ok_resolve_clear:
  assumes ok: "slots_ok st"
    and e: "keepalivePromisesByContextKey st key = Some (Some p)"
  shows "slots_ok (st\<lparr>heap := resolve p (heap st),
              keepalivePromisesByContextKey := (keepalivePromisesByContextKey st)(key \<mapsto> None)\<rparr>)"
proof -
  let ?m = "keepalivePromisesByContextKey st"
  from ok have range: "\<And>k q. ?m k = Some (Some q) \<Longrightarrow> q < length (heap st)"
    and owner: "\<And>q. live_promise st q \<Longrightarrow> \<exists>k. ?m k = Some (Some q)"
    and uniq: "\<And>k k' q. ?m k = Some (Some q) \<Longrightarrow> ?m k' = Some (Some q) \<Longrightarrow> k = k'"
    unfolding slots_ok_def by blast+
  have "\<exists>k. k \<noteq> key \<and> ?m k = Some (Some q)"
    if "q < length (heap st)" "\<not> resolved (resolve p (heap st) ! q)" for q
  proof -
    from that have "q \<noteq> p" by (auto simp: nth_resolve)
    with that have "live_promise st q" by (simp add: live_promise_def nth_resolve)
    then obtain k where k: "?m k = Some (Some q)" using owner by blast
    with e \<open>q \<noteq> p\<close> have "k \<noteq> key" by auto
    with k show ?thesis by blast
  qed
  then show ?thesis
    unfolding slots_ok_def live_promise_def
    by (auto dest: range uniq split: if_splits)
qed

lemma slots_ok_release:
  "slots_ok st \<Longrightarrow> slots_ok (releaseContextForSocketAndOpId ws opId st)"
  by (cases "\<exists>p. keepalivePromisesByContextKey st (contextKey ws opId) = Some (Some p)")
    (auto simp: release_live_entry release_idle slots_ok_resolve_clear)

lemma slots_ok_install:
  assumes ok: "slots_ok st"
    and idle: "\<forall>p. keepalivePromisesByContextKey st key \<noteq> Some (Some p)"
  shows "slots_ok (st\<lparr>heap := heap st @ [d\<lparr>resolved := False\<rparr>],
              keepalivePromisesByContextKey :=
                (keepalivePromisesByContextKey st)(key \<mapsto> Some (length (heap st)))\<rparr>)"
proof -
  let ?m = "keepalivePromisesByContextKey st"
  from ok have range: "\<And>k q. ?m k = Some (Some q) \<Longrightarrow> q < length (heap st)"
    and owner: "\<And>q. live_promise st q \<Longrightarrow> \<exists>k. ?m k = Some (Some q)"
    and uniq: "\<And>k k' q. ?m k = Some (Some q) \<Longrightarrow> ?m k' = Some (Some q) \<Longrightarrow> k = k'"
    unfolding slots_ok_def by blast+
  have "\<exists>k. k \<noteq> key \<and> ?m k = Some (Some q)"
    if "q < length (heap st)" "\<not> resolved (heap st ! q)" for q
  proof -
    from that have "live_promise st q" by (simp add: live_promise_def)
    then obtain k where k: "?m k = Some (Some q)" using owner by blast
    with idle have "k \<noteq> key" by auto
    with k show ?thesis by blast
  qed
  then show ?thesis
    unfolding slots_ok_def live_promise_def
    by (auto simp: nth_append less_Suc_eq dest: range uniq split: if_splits)
qed


lemma slots_ok_empty: "slots_ok empty_slots"
  by (simp add: slots_ok_def live_promise_def empty_slots_def)

lemma release_clears:
  "\<forall>p. keepalivePromisesByContextKey (releaseContextForSocketAndOpId ws opId st)
         (contextKey ws opId) \<noteq> Some (Some p)"
  by (auto simp: releaseContextForSocketAndOpId_def split: option.splits)

lemma addContext_unfold:
  "addContextForSocketAndOpId c ws opId st =
     (length (heap (releaseContextForSocketAndOpId ws opId st)),
      (releaseContextForSocketAndOpId ws opId st)
        \<lparr>heap := heap (releaseContextForSocketAndOpId ws opId st)
                  @ [\<lparr>resolved = True, contextValue = Some c\<rparr>\<lparr>resolved := False\<rparr>],
         keepalivePromisesByContextKey :=
           (keepalivePromisesByContextKey (releaseContextForSocketAndOpId ws opId st))
             (contextKey ws opId \<mapsto> Some (length (heap (releaseContextForSocketAndOpId ws opId st))))\<rparr>)"
  by (simp add: addContextForSocketAndOpId_def Let_def)

lemma slots_ok_addContext:
  "slots_ok st \<Longrightarrow> slots_ok (snd (addContextForSocketAndOpId c ws opId st))"
  unfolding addContext_unfold snd_conv
  by (rule slots_ok_install) (simp_all add: slots_ok_release release_clears)

lemma addContext_live_entry:
  assumes "keepalivePromisesByContextKey st (contextKey ws opId) = Some (Some p)"
  shows "addContextForSocketAndOpId c ws opId st =
     (length (heap st),
      st\<lparr>heap := resolve p (heap st) @ [\<lparr>resolved = False, contextValue = Some c\<rparr>],
         keepalivePromisesByContextKey :=
           (keepalivePromisesByContextKey st)(contextKey ws opId \<mapsto> Some (length (heap st)))\<rparr>)"
  by (simp add: addContextForSocketAndOpId_def Let_def release_live_entry [OF assms])

text \<open>
  C8. When the key holds a live entry, \<^verbatim>\<open>addContextForSocketAndOpId\<close> first resolves that
  entry and clears the slot (the state in between is that of a release), and then installs
  a fresh, unresolved promise with the new context under the key. No other key and no
  other promise changes, and the table stays consistent: every live promise is the entry
  of exactly one key, so a key never has two live promises.
\<close>

theorem addContext_supersedes:
  assumes ok: "slots_ok st"
    and e: "keepalivePromisesByContextKey st (contextKey ws opId) = Some (Some p)"
    and live: "live_promise st p"
  shows "let mid = releaseContextForSocketAndOpId ws opId st;
             q = fst (addContextForSocketAndOpId c ws opId st);
             st' = snd (addContextForSocketAndOpId c ws opId st)
         in \<not> live_promise mid p
          \<and> keepalivePromisesByContextKey mid (contextKey ws opId) = Some None
          \<and> addContextForSocketAndOpId c ws opId st = addContextForSocketAndOpId c ws opId mid
          \<and> q \<noteq> p \<and> live_promise st' q \<and> contextValue (heap st' ! q) = Some c
          \<and> keepalivePromisesByContextKey st' (contextKey ws opId) = Some (Some q)
          \<and> \<not> live_promise st' p
          \<and> (\<forall>k. k \<noteq> contextKey ws opId
                \<longrightarrow> keepalivePromisesByContextKey st' k = keepalivePromisesByContextKey st k)
          \<and> (\<forall>r. r \<noteq> p \<and> r \<noteq> q \<longrightarrow> live_promise st' r = live_promise st r)
          \<and> slots_ok st'"
proof -
  from live have p: "p < length (heap st)" by (simp add: live_promise_def)
  have idem: "releaseContextForSocketAndOpId ws opId (releaseContextForSocketAndOpId ws opId st)
              = releaseContextForSocketAndOpId ws opId st"
    by (rule release_idle) (rule release_clears)
  have mid1: "\<not> live_promise (releaseContextForSocketAndOpId ws opId st) p"
    using p by (simp add: release_live_entry [OF e] live_promise_def nth_resolve)
  have mid2: "keepalivePromisesByContextKey (releaseContextForSocketAndOpId ws opId st)
                (contextKey ws opId) = Some None"
    by (simp add: release_live_entry [OF e])
  have same: "addContextForSocketAndOpId c ws opId st
        = addContextForSocketAndOpId c ws opId (releaseContextForSocketAndOpId ws opId st)"
    by (simp add: addContextForSocketAndOpId_def idem)
  have ok': "slots_ok (snd (addContextForSocketAndOpId c ws opId st))"
    using ok by (rule slots_ok_addContext)
  have fresh: "fst (addContextForSocketAndOpId c ws opId st) \<noteq> p"
    using p by (simp add: addContext_live_entry [OF e])
  have new: "live_promise (snd (addContextForSocketAndOpId c ws opId st))
               (fst (addContextForSocketAndOpId c ws opId st))
             \<and> contextValue (heap (snd (addContextForSocketAndOpId c ws opId st))
                 ! fst (addContextForSocketAndOpId c ws opId st)) = Some c
             \<and> keepalivePromisesByContextKey (snd (addContextForSocketAndOpId c ws opId st))
                 (contextKey ws opId) = Some (Some (fst (addContextForSocketAndOpId c ws opId st)))"
    by (simp add: addContext_live_entry [OF e] live_promise_def nth_append)
  have old: "\<not> live_promise (snd (addContextForSocketAndOpId c ws opId st)) p"
    using p by (simp add: addContext_live_entry [OF e] live_promise_def nth_append nth_resolve)
  have others: "\<forall>k. k \<noteq> contextKey ws opId
        \<longrightarrow> keepalivePromisesByContextKey (snd (addContextForSocketAndOpId c ws opId st)) k
            = keepalivePromisesByContextKey st k"
    by (simp add: addContext_live_entry [OF e])
  have rest: "\<forall>r. r \<noteq> p \<and> r \<noteq> fst (addContextForSocketAndOpId c ws opId st)
        \<longrightarrow> live_promise (snd (addContextForSocketAndOpId c ws opId st)) r = live_promise st r"
    by (auto simp: addContext_live_entry [OF e] live_promise_def nth_append nth_resolve)
  from mid1 mid2 same fresh new old others rest ok' show ?thesis
    unfolding Let_def by blast
qed

theorem addContext_supersedes_witness:
  "keepalivePromisesByContextKey (snd (addContextForSocketAndOpId (10::nat) (Some 1) ''op'' empty_slots))
     (contextKey (Some 1) ''op'') = Some (Some 0)
   \<and> live_promise (snd (addContextForSocketAndOpId (10::nat) (Some 1) ''op'' empty_slots)) 0
   \<and> fst (addContextForSocketAndOpId 20 (Some 1) ''op''
            (snd (addContextForSocketAndOpId (10::nat) (Some 1) ''op'' empty_slots))) = 1
   \<and> \<not> live_promise
        (snd (addContextForSocketAndOpId 20 (Some 1) ''op''
               (snd (addContextForSocketAndOpId (10::nat) (Some 1) ''op'' empty_slots)))) 0
   \<and> live_promise
        (snd (addContextForSocketAndOpId 20 (Some 1) ''op''
               (snd (addContextForSocketAndOpId (10::nat) (Some 1) ''op'' empty_slots)))) 1"
proof -
  let ?st = "snd (addContextForSocketAndOpId (10::nat) (Some 1) ''op'' empty_slots)"
  let ?q = "fst (addContextForSocketAndOpId (20::nat) (Some 1) ''op'' ?st)"
  let ?st' = "snd (addContextForSocketAndOpId (20::nat) (Some 1) ''op'' ?st)"
  have ok: "slots_ok ?st" by (rule slots_ok_addContext) (rule slots_ok_empty)
  have e: "keepalivePromisesByContextKey ?st (contextKey (Some 1) ''op'') = Some (Some 0)"
    by (simp add: addContextForSocketAndOpId_def releaseContextForSocketAndOpId_def Let_def
        empty_slots_def)
  have live: "live_promise ?st 0"
    by (simp add: addContextForSocketAndOpId_def releaseContextForSocketAndOpId_def Let_def
        empty_slots_def live_promise_def)
  have q: "?q = 1"
    by (simp add: addContext_live_entry [OF e])
      (simp add: addContextForSocketAndOpId_def releaseContextForSocketAndOpId_def Let_def
        empty_slots_def)
  have "\<not> live_promise ?st' 0 \<and> live_promise ?st' ?q"
    using addContext_supersedes [OF ok e live, of 20] unfolding Let_def by blast
  with e live q show ?thesis by simp
qed

lemma onOperation_reaches_validation:
  assumes r: "onOperation b p = r" and nf: "\<forall>e. r \<noteq> Inl (Failed e)"
  shows "\<exists>c s params' hookedParams doc.
            getContext b = Inr c \<and> current_schema b = Inr s \<and> reqResFromSocket b = None
            \<and> hook_onOperation b
                  (p\<lparr>params_schema := Some s,
                     params_context := assign_context b (params_context p) c,
                     params_formatResponse := True\<rparr>) = Inr (params', hookedParams)
            \<and> query_document b hookedParams = Inr doc"
proof -
  from r nf obtain c where c: "getContext b = Inr c"
    by (cases "getContext b") (auto simp: onOperation_def)
  from r nf c obtain s where s: "current_schema b = Inr s"
    by (cases "current_schema b") (auto simp: onOperation_def)
  from r nf c s have q: "reqResFromSocket b = None"
    by (cases "reqResFromSocket b") (auto simp: onOperation_def)
  let ?params = "p\<lparr>params_schema := Some s,
                     params_context := assign_context b (params_context p) c,
                     params_formatResponse := True\<rparr>"
  from r nf c s q obtain params' hookedParams
    where h: "hook_onOperation b ?params = Inr (params', hookedParams)"
    by (cases "hook_onOperation b ?params") (auto simp: onOperation_def Let_def)
  from r nf c s q h obtain doc where d: "query_document b hookedParams = Inr doc"
    by (cases "query_document b hookedParams") (auto simp: onOperation_def Let_def)
  from c s q h d show ?thesis by blast
qed

lemma onOperation_validates:
  assumes "getContext b = Inr c" and "current_schema b = Inr s"
    and "reqResFromSocket b = None"
    and "hook_onOperation b
           (p\<lparr>params_schema := Some s,
              params_context := assign_context b (params_context p) c,
              params_formatResponse := True\<rparr>) = Inr (params', hookedParams)"
    and "query_document b hookedParams = Inr doc"
  shows "onOperation b p =
     (case per_request_errors b (params_schema params') doc (params_variables params')
             (params_operationName params') of
        Inl e \<Rightarrow> Inl (Failed e)
      | Inr errs \<Rightarrow>
          if errs \<noteq> []
          then Inl (QueryValidationFailed (validation_message (message b) errs) errs)
          else Inr (hookedParams\<lparr>params_query := Inr doc\<rparr>))"
  using assms
  by (simp add: onOperation_def per_request_errors_def Let_def split: sum.splits)

lemma onSubscribe_reaches_validation:
  assumes r: "onSubscribe b pl = Inr (Args a')"
  shows "validate b (Some (args_schema a')) (document a') (staticValidationRules b) = Inr []
         \<and> reqResFromSocket b = None
         \<and> onSubscribe b pl =
             (case per_request_errors b (Some (args_schema a')) (document a') (variableValues a')
                     (args_operationName a') of
                Inl e \<Rightarrow> Inl e
              | Inr errs \<Rightarrow> if errs \<noteq> [] then Inr (Errors errs) else Inr (Args a'))"
proof -
  from r obtain c where c: "getContext b = Inr c"
    by (cases "getContext b") (auto simp: onSubscribe_def)
  from r c obtain s where s: "current_schema b = Inr s"
    by (cases "current_schema b") (auto simp: onSubscribe_def)
  from r c s obtain doc where d: "parse b (payload_query pl) = Inr doc"
    by (cases "parse b (payload_query pl)") (auto simp: onSubscribe_def)
  let ?args = "\<lparr>args_schema = s, args_contextValue = c,
             args_operationName = payload_operationName pl, document = doc,
             variableValues = payload_variables pl\<rparr>"
  from r c s d obtain a where h: "hook_onSubscribe b ?args = Inr a"
    by (cases "hook_onSubscribe b ?args") (auto simp: onSubscribe_def)
  from r c s d h obtain errs
    where v: "validate b (Some (args_schema a)) (document a) (staticValidationRules b) = Inr errs"
    by (cases "validate b (Some (args_schema a)) (document a) (staticValidationRules b)")
      (auto simp: onSubscribe_def)
  from r c s d h v have e: "errs = []"
    by (cases "errs = []") (auto simp: onSubscribe_def)
  from r c s d h v e have q: "reqResFromSocket b = None"
    by (cases "reqResFromSocket b") (auto simp: onSubscribe_def)
  have unfolded: "onSubscribe b pl =
             (case per_request_errors b (Some (args_schema a)) (document a) (variableValues a)
                     (args_operationName a) of
                Inl e \<Rightarrow> Inl e
              | Inr errs \<Rightarrow> if errs \<noteq> [] then Inr (Errors errs) else Inr (Args a))"
    using c s d h v e q
    by (simp add: onSubscribe_def per_request_errors_def split: sum.splits)
  with r have aa: "a = a'"
    by (auto split: sum.splits if_splits)
  from v e q unfolded show ?thesis
    unfolding aa by simp
qed

lemma onSubscribe_validates:
  assumes "getContext b = Inr c" and "current_schema b = Inr s"
    and "parse b (payload_query pl) = Inr doc"
    and "hook_onSubscribe b
            \<lparr>args_schema = s, args_contextValue = c,
             args_operationName = payload_operationName pl, document = doc,
             variableValues = payload_variables pl\<rparr> = Inr a"
    and "validate b (Some (args_schema a)) (document a) (staticValidationRules b) = Inr []"
    and "reqResFromSocket b = None"
  shows "onSubscribe b pl =
     (case per_request_errors b (Some (args_schema a)) (document a) (variableValues a)
             (args_operationName a) of
        Inl e \<Rightarrow> Inl e
      | Inr errs \<Rightarrow> if errs \<noteq> [] then Inr (Errors errs) else Inr (Args a))"
  using assms
  by (simp add: onSubscribe_def per_request_errors_def split: sum.splits)

text \<open>
  C5, for both protocol versions. When the steps before the validation succeed and the
  per-request rule set reports violations, \<^verbatim>\<open>onOperation\<close> (v0) rejects with an error whose
  \<^verbatim>\<open>errors\<close> are exactly those violations, and it rejects in this way in no other case;
  \<^verbatim>\<open>onSubscribe\<close> (v1, where the static rules are checked first and must have passed)
  returns exactly those violations as its error list, which \<^verbatim>\<open>onError\<close> hands to
  \<^verbatim>\<open>handleErrors\<close> as it is. Whenever v0 resolves to parameters or v1 returns arguments,
  which is the only way on to execution, the one call of \<^verbatim>\<open>validate\<close> over the whole
  per-request rule set has returned and reported nothing (and in v1 neither have the
  static rules). In v0 the rules are made from the variables and the operation name of
  \<^verbatim>\<open>params\<close>, and checked against the schema of \<^verbatim>\<open>params\<close>, as the hook
  \<^verbatim>\<open>'postgraphile:ws:onOperation'\<close> left them.
\<close>

theorem validation_precedes_execution:
  "(getContext b = Inr c \<and> current_schema b = Inr s \<and> reqResFromSocket b = None
      \<and> hook_onOperation b
            (p\<lparr>params_schema := Some s,
               params_context := assign_context b (params_context p) c,
               params_formatResponse := True\<rparr>) = Inr (params', hookedParams)
      \<and> query_document b hookedParams = Inr doc
      \<and> per_request_errors b (params_schema params') doc (params_variables params')
            (params_operationName params') = Inr errs
      \<and> errs \<noteq> []
     \<longrightarrow> onOperation b p = Inl (QueryValidationFailed (validation_message (message b) errs) errs))
   \<and> (onOperation b p = Inl (QueryValidationFailed msg errs')
     \<longrightarrow> (\<exists>c s params' hookedParams doc.
            getContext b = Inr c \<and> current_schema b = Inr s
            \<and> hook_onOperation b
                  (p\<lparr>params_schema := Some s,
                     params_context := assign_context b (params_context p) c,
                     params_formatResponse := True\<rparr>) = Inr (params', hookedParams)
            \<and> query_document b hookedParams = Inr doc
            \<and> per_request_errors b (params_schema params') doc (params_variables params')
                  (params_operationName params') = Inr errs'
            \<and> errs' \<noteq> [] \<and> msg = validation_message (message b) errs'))
   \<and> (onOperation b p = Inr finalParams
     \<longrightarrow> (\<exists>c s params' hookedParams doc.
            getContext b = Inr c \<and> current_schema b = Inr s
            \<and> hook_onOperation b
                  (p\<lparr>params_schema := Some s,
                     params_context := assign_context b (params_context p) c,
                     params_formatResponse := True\<rparr>) = Inr (params', hookedParams)
            \<and> query_document b hookedParams = Inr doc
            \<and> finalParams = hookedParams\<lparr>params_query := Inr doc\<rparr>
            \<and> per_request_errors b (params_schema params') doc (params_variables params')
                  (params_operationName params') = Inr []))
   \<and> (getContext b = Inr c \<and> current_schema b = Inr s \<and> parse b (payload_query pl) = Inr doc
      \<and> hook_onSubscribe b
            \<lparr>args_schema = s, args_contextValue = c,
             args_operationName = payload_operationName pl, document = doc,
             variableValues = payload_variables pl\<rparr> = Inr a
      \<and> validate b (Some (args_schema a)) (document a) (staticValidationRules b) = Inr []
      \<and> reqResFromSocket b = None
      \<and> per_request_errors b (Some (args_schema a)) (document a) (variableValues a)
            (args_operationName a) = Inr errs
      \<and> errs \<noteq> []
     \<longrightarrow> onSubscribe b pl = Inr (Errors errs) \<and> onError b errs = handleErrors_ws b errs)
   \<and> (onSubscribe b pl = Inr (Args a')
     \<longrightarrow> validate b (Some (args_schema a')) (document a') (staticValidationRules b) = Inr []
         \<and> per_request_errors b (Some (args_schema a')) (document a') (variableValues a')
              (args_operationName a') = Inr [])"
proof (intro conjI impI)
  assume a: "getContext b = Inr c \<and> current_schema b = Inr s \<and> reqResFromSocket b = None
      \<and> hook_onOperation b
            (p\<lparr>params_schema := Some s,
               params_context := assign_context b (params_context p) c,
               params_formatResponse := True\<rparr>) = Inr (params', hookedParams)
      \<and> query_document b hookedParams = Inr doc
      \<and> per_request_errors b (params_schema params') doc (params_variables params')
            (params_operationName params') = Inr errs
      \<and> errs \<noteq> []"
  then have steps: "getContext b = Inr c" "current_schema b = Inr s" "reqResFromSocket b = None"
      "hook_onOperation b
         (p\<lparr>params_schema := Some s,
            params_context := assign_context b (params_context p) c,
            params_formatResponse := True\<rparr>) = Inr (params', hookedParams)"
      "query_document b hookedParams = Inr doc"
    by blast+
  from a onOperation_validates [OF steps] show "onOperation b p
             = Inl (QueryValidationFailed (validation_message (message b) errs) errs)"
    by simp
next
  assume r: "onOperation b p = Inl (QueryValidationFailed msg errs')"
  then obtain c s params' hookedParams doc
    where steps: "getContext b = Inr c" "current_schema b = Inr s" "reqResFromSocket b = None"
      "hook_onOperation b
         (p\<lparr>params_schema := Some s,
            params_context := assign_context b (params_context p) c,
            params_formatResponse := True\<rparr>) = Inr (params', hookedParams)"
      "query_document b hookedParams = Inr doc"
    using onOperation_reaches_validation [of b p "Inl (QueryValidationFailed msg errs')"]
    by auto
  from r onOperation_validates [OF steps]
  have "per_request_errors b (params_schema params') doc (params_variables params')
          (params_operationName params') = Inr errs'
        \<and> errs' \<noteq> [] \<and> msg = validation_message (message b) errs'"
    by (auto split: sum.splits if_splits)
  with steps show "\<exists>c s params' hookedParams doc.
            getContext b = Inr c \<and> current_schema b = Inr s
            \<and> hook_onOperation b
                  (p\<lparr>params_schema := Some s,
                     params_context := assign_context b (params_context p) c,
                     params_formatResponse := True\<rparr>) = Inr (params', hookedParams)
            \<and> query_document b hookedParams = Inr doc
            \<and> per_request_errors b (params_schema params') doc (params_variables params')
                  (params_operationName params') = Inr errs'
            \<and> errs' \<noteq> [] \<and> msg = validation_message (message b) errs'"
    by blast
next
  assume r: "onOperation b p = Inr finalParams"
  then obtain c s params' hookedParams doc
    where steps: "getContext b = Inr c" "current_schema b = Inr s" "reqResFromSocket b = None"
      "hook_onOperation b
         (p\<lparr>params_schema := Some s,
            params_context := assign_context b (params_context p) c,
            params_formatResponse := True\<rparr>) = Inr (params', hookedParams)"
      "query_document b hookedParams = Inr doc"
    using onOperation_reaches_validation [of b p "Inr finalParams"]
    by auto
  from r onOperation_validates [OF steps]
  have "finalParams = hookedParams\<lparr>params_query := Inr doc\<rparr>
        \<and> per_request_errors b (params_schema params') doc (params_variables params')
            (params_operationName params') = Inr []"
    by (auto split: sum.splits if_splits)
  with steps show "\<exists>c s params' hookedParams doc.
            getContext b = Inr c \<and> current_schema b = Inr s
            \<and> hook_onOperation b
                  (p\<lparr>params_schema := Some s,
                     params_context := assign_context b (params_context p) c,
                     params_formatResponse := True\<rparr>) = Inr (params', hookedParams)
            \<and> query_document b hookedParams = Inr doc
            \<and> finalParams = hookedParams\<lparr>params_query := Inr doc\<rparr>
            \<and> per_request_errors b (params_schema params') doc (params_variables params')
                  (params_operationName params') = Inr []"
    by blast
next
  assume a: "getContext b = Inr c \<and> current_schema b = Inr s
      \<and> parse b (payload_query pl) = Inr doc
      \<and> hook_onSubscribe b
            \<lparr>args_schema = s, args_contextValue = c,
             args_operationName = payload_operationName pl, document = doc,
             variableValues = payload_variables pl\<rparr> = Inr a
      \<and> validate b (Some (args_schema a)) (document a) (staticValidationRules b) = Inr []
      \<and> reqResFromSocket b = None
      \<and> per_request_errors b (Some (args_schema a)) (document a) (variableValues a)
            (args_operationName a) = Inr errs
      \<and> errs \<noteq> []"
  then have steps: "getContext b = Inr c" "current_schema b = Inr s"
      "parse b (payload_query pl) = Inr doc"
      "hook_onSubscribe b
            \<lparr>args_schema = s, args_contextValue = c,
             args_operationName = payload_operationName pl, document = doc,
             variableValues = payload_variables pl\<rparr> = Inr a"
      "validate b (Some (args_schema a)) (document a) (staticValidationRules b) = Inr []"
      "reqResFromSocket b = None"
    by blast+
  from a onSubscribe_validates [OF steps] show "onSubscribe b pl = Inr (Errors errs)"
    by simp
  from a show "onError b errs = handleErrors_ws b errs"
    by (simp add: onError_def)
next
  assume r: "onSubscribe b pl = Inr (Args a')"
  note v = onSubscribe_reaches_validation [OF r]
  from v show "validate b (Some (args_schema a')) (document a') (staticValidationRules b)
               = Inr []"
    by simp
  from v r show "per_request_errors b (Some (args_schema a')) (document a') (variableValues a')
              (args_operationName a') = Inr []"
    by (auto split: sum.splits if_splits)
qed

theorem validation_precedes_execution_witness:
  "onOperation example_bridge
     \<lparr>params_schema = None, params_query = Inl ''{ a }'', params_variables = True,
      params_operationName = None, params_context = 0, params_formatResponse = False\<rparr>
     = Inl (QueryValidationFailed
              (validation_message id
                 [''depth rule violated by { a }'', ''cost rule violated by { a }''])
              [''depth rule violated by { a }'', ''cost rule violated by { a }''])
   \<and> onOperation mutating_bridge
       \<lparr>params_schema = None, params_query = Inl ''{ a }'', params_variables = False,
        params_operationName = None, params_context = 0, params_formatResponse = False\<rparr>
     = Inl (QueryValidationFailed
              (validation_message id
                 [''depth rule violated by { a }'', ''cost rule violated by { a }''])
              [''depth rule violated by { a }'', ''cost rule violated by { a }''])
   \<and> onSubscribe example_bridge
       \<lparr>payload_query = ''{ a }'', payload_variables = True, payload_operationName = None\<rparr>
     = Inr (Errors [''depth rule violated by { a }'', ''cost rule violated by { a }''])
   \<and> onError example_bridge [''depth rule violated by { a }'', ''cost rule violated by { a }'']
     = Inr [''error: depth rule violated by { a }'', ''error: cost rule violated by { a }'']
   \<and> onOperation example_bridge
       \<lparr>params_schema = None, params_query = Inl ''{ a }'', params_variables = False,
        params_operationName = None, params_context = 0, params_formatResponse = False\<rparr>
     = Inr \<lparr>params_schema = Some 7, params_query = Inr ''{ a }'', params_variables = False,
            params_operationName = None, params_context = 1, params_formatResponse = True\<rparr>
   \<and> per_request_errors example_bridge (Some 7) ''{ a }'' True None
     = Inr [''depth rule violated by { a }'', ''cost rule violated by { a }'']
   \<and> per_request_errors example_bridge (Some 7) ''{ a }'' False None = Inr []
   \<and> validate example_bridge (Some 7) ''{ a }'' [] = Inr []
   \<and> onSubscribe example_bridge
       \<lparr>payload_query = ''{ a }'', payload_variables = False, payload_operationName = None\<rparr>
     = Inr (Args \<lparr>args_schema = 7, args_contextValue = 1, args_operationName = None,
                  document = ''{ a }'', variableValues = False\<rparr>)"
proof -
  let ?errs = "[''depth rule violated by { a }'', ''cost rule violated by { a }'']"
  let ?p = "\<lambda>vars. \<lparr>params_schema = None, params_query = Inl ''{ a }'',
      params_variables = vars, params_operationName = None, params_context = (0::nat),
      params_formatResponse = False\<rparr> :: (nat, string, bool, nat) execution_params"
  let ?h = "\<lambda>vars. \<lparr>params_schema = Some (7::nat), params_query = Inl ''{ a }'',
      params_variables = vars, params_operationName = None, params_context = (1::nat),
      params_formatResponse = True\<rparr> :: (nat, string, bool, nat) execution_params"
  let ?pl = "\<lambda>vars. \<lparr>payload_query = ''{ a }'', payload_variables = vars,
      payload_operationName = None\<rparr> :: bool payload"
  let ?a = "\<lambda>vars. \<lparr>args_schema = 7::nat, args_contextValue = 1::nat,
      args_operationName = None, document = ''{ a }'', variableValues = vars\<rparr>
      :: (nat, string, bool, nat) execution_args"
  note violated = validation_precedes_execution
      [where b = example_bridge and c = 1 and s = 7 and doc = "''{ a }''"
         and p = "?p True" and params' = "?h True" and hookedParams = "?h True"
         and errs = ?errs and pl = "?pl True" and a = "?a True"]
  have v0: "onOperation example_bridge (?p True)
        = Inl (QueryValidationFailed (validation_message (message example_bridge) ?errs) ?errs)"
    by (rule violated [THEN conjunct1, rule_format])
      (simp add: example_bridge_def query_document_def per_request_errors_def)
  have v1: "onSubscribe example_bridge (?pl True) = Inr (Errors ?errs)
        \<and> onError example_bridge ?errs = handleErrors_ws example_bridge ?errs"
    by (rule violated [THEN conjunct2, THEN conjunct2, THEN conjunct2, THEN conjunct1,
          rule_format])
      (simp add: example_bridge_def per_request_errors_def)
  have mutated: "onOperation mutating_bridge (?p False)
        = Inl (QueryValidationFailed (validation_message (message mutating_bridge) ?errs) ?errs)"
    by (rule validation_precedes_execution
          [where b = mutating_bridge and c = 1 and s = 7 and doc = "''{ a }''"
             and p = "?p False" and params' = "?h True" and hookedParams = "?h True"
             and errs = ?errs, THEN conjunct1, rule_format])
      (simp add: example_bridge_def mutating_bridge_def query_document_def
        per_request_errors_def)
  have passes: "onOperation example_bridge (?p False)
        = Inr \<lparr>params_schema = Some 7, params_query = Inr ''{ a }'', params_variables = False,
            params_operationName = None, params_context = 1, params_formatResponse = True\<rparr>"
    "onSubscribe example_bridge (?pl False) = Inr (Args (?a False))"
    by (simp_all add: example_bridge_def onOperation_def onSubscribe_def query_document_def)
  have "validate example_bridge (Some (args_schema (?a False))) (document (?a False))
          (staticValidationRules example_bridge) = Inr []
        \<and> per_request_errors example_bridge (Some (args_schema (?a False)))
            (document (?a False)) (variableValues (?a False)) (args_operationName (?a False))
          = Inr []"
    by (rule validation_precedes_execution
          [where b = example_bridge and pl = "?pl False" and a' = "?a False",
           THEN conjunct2, THEN conjunct2, THEN conjunct2, THEN conjunct2, rule_format])
      (rule passes)
  then have static: "validate example_bridge (Some 7) ''{ a }'' [] = Inr []"
    by (simp add: example_bridge_def)
  from validation_precedes_execution
      [where b = example_bridge and p = "?p False"
         and finalParams = "\<lparr>params_schema = Some 7, params_query = Inr ''{ a }'',
            params_variables = False, params_operationName = None, params_context = 1,
            params_formatResponse = True\<rparr>",
       THEN conjunct2, THEN conjunct2, THEN conjunct1, rule_format, OF passes(1)]
  obtain c s params' hookedParams doc
    where o: "getContext example_bridge = Inr c" "current_schema example_bridge = Inr s"
      "hook_onOperation example_bridge
         ((?p False)\<lparr>params_schema := Some s,
            params_context := assign_context example_bridge (params_context (?p False)) c,
            params_formatResponse := True\<rparr>) = Inr (params', hookedParams)"
      "query_document example_bridge hookedParams = Inr doc"
      "per_request_errors example_bridge (params_schema params') doc (params_variables params')
         (params_operationName params') = Inr []"
    by blast
  from o(1,2) have cs: "c = 1" "s = 7"
    by (simp_all add: example_bridge_def)
  from o(3) have hp: "params' = ?h False" "hookedParams = ?h False"
    unfolding cs by (auto simp: example_bridge_def)
  from o(4) have "doc = ''{ a }''"
    unfolding hp by (simp add: query_document_def example_bridge_def)
  with o(5) have quiet: "per_request_errors example_bridge (Some 7) ''{ a }'' False None = Inr []"
    unfolding hp by simp
  from validation_precedes_execution
      [where b = example_bridge and p = "?p True"
         and msg = "validation_message (message example_bridge) ?errs" and errs' = ?errs,
       THEN conjunct2, THEN conjunct1, rule_format, OF v0]
  obtain c s params' hookedParams doc
    where o: "getContext example_bridge = Inr c" "current_schema example_bridge = Inr s"
      "hook_onOperation example_bridge
         ((?p True)\<lparr>params_schema := Some s,
            params_context := assign_context example_bridge (params_context (?p True)) c,
            params_formatResponse := True\<rparr>) = Inr (params', hookedParams)"
      "query_document example_bridge hookedParams = Inr doc"
      "per_request_errors example_bridge (params_schema params') doc (params_variables params')
         (params_operationName params') = Inr ?errs"
    by blast
  from o(1,2) have cs: "c = 1" "s = 7"
    by (simp_all add: example_bridge_def)
  from o(3) have hp: "params' = ?h True" "hookedParams = ?h True"
    unfolding cs by (auto simp: example_bridge_def)
  from o(4) have "doc = ''{ a }''"
    unfolding hp by (simp add: query_document_def example_bridge_def)
  with o(5) have loud: "per_request_errors example_bridge (Some 7) ''{ a }'' True None = Inr ?errs"
    unfolding hp by simp
  have fmt: "handleErrors_ws example_bridge ?errs
        = Inr [''error: depth rule violated by { a }'', ''error: cost rule violated by { a }'']"
    "message example_bridge = id" "message mutating_bridge = id"
    by (simp_all add: example_bridge_def mutating_bridge_def)
  from v0 v1 mutated passes quiet loud static show ?thesis
    unfolding fmt by simp
qed

end
